theory Spec2Isabelle
  imports Complex_Main "HOL-Library.AList"
begin

section \<open>Tables\<close>

text \<open>
  A pandas DataFrame is modelled column-wise: a row count (the length of the index) and an
  association list from column names to columns, in column order. A cell is a float, a
  boolean, a string or a missing value (NaN / None). Floats are read as real numbers, so
  rounding and infinities of float64 are not part of the model.
\<close>

datatype cell = Num real | Flag bool | Text string | Null

datatype error =
  ValueError | TypeError | KeyError | FileNotFoundError | ParserError | Unmodelled

type_synonym series = "cell list"

record dataframe =
  nrows :: nat
  columns :: "(string \<times> series) list"

definition get_col :: "dataframe \<Rightarrow> string \<Rightarrow> series option" where
  "get_col d c = map_of (columns d) c"

text \<open>\<^verbatim>\<open>df[c] = values\<close>: replaces the column where it stands, or appends it.\<close>

definition set_col :: "dataframe \<Rightarrow> string \<Rightarrow> series \<Rightarrow> dataframe" where
  "set_col d c xs = d\<lparr>columns := AList.update c xs (columns d)\<rparr>"

definition wf_table :: "dataframe \<Rightarrow> bool" where
  "wf_table d = list_all (\<lambda>(c, xs). length xs = nrows d) (columns d)"

subsection \<open>Reading cells as numbers\<close>

fun is_text :: "cell \<Rightarrow> bool" where
  "is_text (Text s) = True"
| "is_text c = False"

definition has_text :: "series \<Rightarrow> bool" where
  "has_text col = list_ex is_text col"

text \<open>
  The numeric reading numpy and pandas give a cell: \<^verbatim>\<open>True\<close> is 1, \<^verbatim>\<open>False\<close> is 0, a
  missing value is NaN (\<open>None\<close> here). A string has no numeric reading; every statistic
  below is guarded by \<open>has_text\<close> and raises TypeError on a column that holds one.
\<close>

fun num_of :: "cell \<Rightarrow> real option" where
  "num_of (Num x) = Some x"
| "num_of (Flag b) = Some (if b then 1 else 0)"
| "num_of (Text s) = None"
| "num_of Null = None"

definition numbers :: "series \<Rightarrow> real option list" where
  "numbers col = map num_of col"

text \<open>\<^verbatim>\<open>dropna\<close>: the values that are present, in row order.\<close>

fun dropna :: "real option list \<Rightarrow> real list" where
  "dropna [] = []"
| "dropna (None # xs) = dropna xs"
| "dropna (Some v # xs) = v # dropna xs"

fun is_numeric_cell :: "cell \<Rightarrow> bool" where
  "is_numeric_cell (Num x) = True"
| "is_numeric_cell Null = True"
| "is_numeric_cell c = False"

text \<open>\<^verbatim>\<open>select_dtypes(include=[np.number])\<close>: the float columns.\<close>

definition numeric_columns_of :: "dataframe \<Rightarrow> string list" where
  "numeric_columns_of d = map fst (filter (\<lambda>(c, xs). list_all is_numeric_cell xs) (columns d))"

section \<open>Column statistics\<close>

text \<open>pandas \<^verbatim>\<open>mean\<close>, \<^verbatim>\<open>median\<close>, \<^verbatim>\<open>std\<close> skip missing values; on nothing they give NaN.\<close>

definition mean :: "real list \<Rightarrow> real option" where
  "mean vs = (if vs = [] then None else Some (sum_list vs / real (length vs)))"

definition sq_dev :: "real list \<Rightarrow> real" where
  "sq_dev vs = (let m = sum_list vs / real (length vs) in sum_list (map (\<lambda>x. (x - m)\<^sup>2) vs))"

text \<open>pandas \<^verbatim>\<open>Series.std()\<close>: the sample standard deviation (ddof = 1).\<close>

definition pandas_std :: "real list \<Rightarrow> real option" where
  "pandas_std vs = (if length vs < 2 then None else Some (sqrt (sq_dev vs / real (length vs - 1))))"

text \<open>numpy \<^verbatim>\<open>std()\<close>, as scipy's zscore calls it: the population standard deviation (ddof = 0).\<close>

definition numpy_std :: "real list \<Rightarrow> real option" where
  "numpy_std vs = (if vs = [] then None else Some (sqrt (sq_dev vs / real (length vs))))"

definition median :: "real list \<Rightarrow> real option" where
  "median vs =
     (let s = sort vs; n = length s in
      if n = 0 then None
      else if odd n then Some (s ! (n div 2))
      else Some ((s ! (n div 2 - 1) + s ! (n div 2)) / 2))"

text \<open>
  pandas \<^verbatim>\<open>Series.mode()\<close>: the most frequent present values, in ascending order; empty when
  nothing is present.
\<close>

definition mode :: "real list \<Rightarrow> real list" where
  "mode vs =
     (let top = fold max (map (count_list vs) vs) 0
      in sort (remdups (filter (\<lambda>v. count_list vs v = top) vs)))"

text \<open>
  \<^verbatim>\<open>scipy.stats.zscore(a)\<close> with its defaults (ddof = 0, nan_policy = 'propagate'): one NaN in
  the input makes the mean NaN and with it every score; a zero standard deviation makes
  every score 0/0, NaN again.
\<close>

definition zscore_statistics :: "real option list \<Rightarrow> real option \<times> real option" where
  "zscore_statistics a =
     (if list_ex (\<lambda>x. x = None) a then (None, None)
      else (mean (dropna a), numpy_std (dropna a)))"

definition zscore :: "real option list \<Rightarrow> real option list" where
  "zscore a =
     (case zscore_statistics a of
        (Some m, Some sd) \<Rightarrow>
          if sd = 0 then map (\<lambda>x. None) a
          else map (map_option (\<lambda>v. (v - m) / sd)) a
      | _ \<Rightarrow> map (\<lambda>x. None) a)"

section \<open>The cleaner\<close>

record missing_stats =
  total_missing :: nat
  missing_by_column :: "(string \<times> nat) list"
  missing_percentage :: "(string \<times> real option) list"
  high_missing_columns :: "(string \<times> real option) list"

record outlier_stat =
  count :: nat
  percentage :: "real option"

record cleaning_report =
  missing_values :: "missing_stats option"
  outliers :: "(string \<times> outlier_stat) list option"
  total_outliers :: "nat option"

record cleaner =
  df :: dataframe
  df_cleaned :: "dataframe option"
  outlier_flags :: "(string \<times> outlier_stat) list"
  cleaning_stats :: cleaning_report

definition init :: "dataframe \<Rightarrow> cleaner" where
  "init d = \<lparr>df = d, df_cleaned = None, outlier_flags = [],
     cleaning_stats = \<lparr>missing_values = None, outliers = None, total_outliers = None\<rparr>\<rparr>"

subsection \<open>detect_missing_values\<close>

definition isna_sum :: "series \<Rightarrow> nat" where
  "isna_sum col = length (filter (\<lambda>c. c = Null) col)"

text \<open>A count divided by a zero row count is 0/0: NaN, which compares false with everything.\<close>

definition pct :: "nat \<Rightarrow> nat \<Rightarrow> real option" where
  "pct k n = (if n = 0 then None else Some (real k / real n * 100))"

definition detect_missing_values :: "cleaner \<Rightarrow> real \<Rightarrow> missing_stats \<times> cleaner" where
  "detect_missing_values self threshold =
     (let missing = map (\<lambda>(c, xs). (c, isna_sum xs)) (columns (df self));
          missing_pct = map (\<lambda>(c, k). (c, pct k (nrows (df self)))) missing;
          high_missing = filter (\<lambda>(c, p). case p of None \<Rightarrow> False | Some v \<Rightarrow> v > threshold * 100) missing_pct
      in (\<lparr>total_missing = sum_list (map snd missing),
           missing_by_column = missing,
           missing_percentage = missing_pct,
           high_missing_columns = high_missing\<rparr>, self))"

subsection \<open>impute_missing_values\<close>

text \<open>
  The fill value of one column. A column that holds a string makes \<^verbatim>\<open>median()\<close> and
  \<^verbatim>\<open>mean()\<close> raise TypeError; its mode is outside this model.
\<close>

definition fill_value :: "string \<Rightarrow> series \<Rightarrow> error + real option" where
  "fill_value method col =
     (if method = ''median'' then
        (if has_text col then Inl TypeError else Inr (median (dropna (numbers col))))
      else if method = ''mean'' then
        (if has_text col then Inl TypeError else Inr (mean (dropna (numbers col))))
      else if method = ''mode'' then
        (if has_text col then Inl Unmodelled
         else Inr (Some (case mode (dropna (numbers col)) of [] \<Rightarrow> 0 | m # ms \<Rightarrow> m)))
      else Inl ValueError)"

text \<open>\<^verbatim>\<open>fillna(v)\<close>: a NaN fill value fills nothing.\<close>

definition fillna :: "real option \<Rightarrow> series \<Rightarrow> series" where
  "fillna v col = (case v of None \<Rightarrow> col | Some x \<Rightarrow> map (\<lambda>c. if c = Null then Num x else c) col)"

fun impute_loop :: "string \<Rightarrow> string list \<Rightarrow> dataframe \<Rightarrow> error + dataframe" where
  "impute_loop method [] d = Inr d"
| "impute_loop method (c # cs) d =
     (case get_col d c of
        None \<Rightarrow> impute_loop method cs d
      | Some col \<Rightarrow>
          (case fill_value method col of
             Inl e \<Rightarrow> Inl e
           | Inr v \<Rightarrow> impute_loop method cs (set_col d c (fillna v col))))"

definition impute_missing_values ::
  "cleaner \<Rightarrow> string list option \<Rightarrow> string \<Rightarrow> (error + dataframe) \<times> cleaner" where
  "impute_missing_values self cols method =
     (let cols' = (case cols of None \<Rightarrow> numeric_columns_of (df self) | Some cs \<Rightarrow> cs)
      in case impute_loop method cols' (df self) of
           Inl e \<Rightarrow> (Inl e, self)
         | Inr df_imputed \<Rightarrow> (Inr df_imputed, self\<lparr>df := df_imputed\<rparr>))"

subsection \<open>detect_outliers\<close>

text \<open>
  The mask of one column: line 144 scores the whole column, missing values included
  (line 140 scores the present values only, and its result is never read).
\<close>

definition outlier_mask :: "real \<Rightarrow> series \<Rightarrow> error + bool list" where
  "outlier_mask z_threshold col =
     (if has_text col then Inl TypeError
      else let z_scores = map (map_option abs) (zscore (map Some (dropna (numbers col))))
           in Inr (map (\<lambda>z. case z of None \<Rightarrow> False | Some v \<Rightarrow> \<bar>v\<bar> > z_threshold)
                    (zscore (numbers col))))"

text \<open>\<^verbatim>\<open>df.loc[mask, 'Outlier_Flag'] = True\<close>\<close>

definition loc_set_true :: "bool list \<Rightarrow> dataframe \<Rightarrow> dataframe" where
  "loc_set_true msk d =
     (let old = (case get_col d ''Outlier_Flag'' of None \<Rightarrow> replicate (nrows d) Null | Some f \<Rightarrow> f)
      in set_col d ''Outlier_Flag'' (map (\<lambda>(c, m). if m then Flag True else c) (zip old msk)))"

definition count_true :: "bool list \<Rightarrow> nat" where
  "count_true msk = length (filter (\<lambda>b. b) msk)"

fun detect_loop ::
  "real \<Rightarrow> string list \<Rightarrow> dataframe \<times> (string \<times> outlier_stat) list
     \<Rightarrow> (error + dataframe) \<times> (string \<times> outlier_stat) list" where
  "detect_loop t [] (d, fl) = (Inr d, fl)"
| "detect_loop t (c # cs) (d, fl) =
     (case get_col d c of
        None \<Rightarrow> detect_loop t cs (d, fl)
      | Some col \<Rightarrow>
          (case outlier_mask t col of
             Inl e \<Rightarrow> (Inl e, fl)
           | Inr msk \<Rightarrow>
               detect_loop t cs
                 (loc_set_true msk d,
                  AList.update c \<lparr>count = count_true msk,
                                  percentage = pct (count_true msk) (nrows d)\<rparr> fl)))"

definition detect_outliers ::
  "cleaner \<Rightarrow> string list \<Rightarrow> real \<Rightarrow> (error + dataframe) \<times> cleaner" where
  "detect_outliers self cols z_threshold =
     (let df_with_flags = set_col (df self) ''Outlier_Flag'' (replicate (nrows (df self)) (Flag False))
      in case detect_loop z_threshold cols (df_with_flags, outlier_flags self) of
           (Inl e, fl) \<Rightarrow> (Inl e, self\<lparr>outlier_flags := fl\<rparr>)
         | (Inr d, fl) \<Rightarrow> (Inr d, self\<lparr>df := d, outlier_flags := fl\<rparr>))"

subsection \<open>cap_outliers\<close>

text \<open>
  \<^verbatim>\<open>Series.clip(lower, upper)\<close>: a NaN bound is ignored, two scalar bounds are put in order,
  and a missing value stays missing. A cell that is moved becomes the float bound.
\<close>

definition clip_cell :: "real option \<Rightarrow> real option \<Rightarrow> cell \<Rightarrow> cell" where
  "clip_cell lo hi c =
     (case num_of c of
        None \<Rightarrow> c
      | Some x \<Rightarrow>
          (case lo of
             Some l \<Rightarrow> if x < l then Num l
                       else (case hi of Some h \<Rightarrow> if x > h then Num h else c | None \<Rightarrow> c)
           | None \<Rightarrow> (case hi of Some h \<Rightarrow> if x > h then Num h else c | None \<Rightarrow> c)))"

definition clip :: "real option \<Rightarrow> real option \<Rightarrow> series \<Rightarrow> series" where
  "clip lower upper col =
     (case (lower, upper) of
        (Some l, Some u) \<Rightarrow> map (clip_cell (Some (min l u)) (Some (max l u))) col
      | _ \<Rightarrow> map (clip_cell lower upper) col)"

text \<open>Float arithmetic on the bounds: NaN in, NaN out.\<close>

definition bound :: "real option \<Rightarrow> real \<Rightarrow> real option \<Rightarrow> real option" where
  "bound m k s = (case (m, s) of (Some a, Some b) \<Rightarrow> Some (a + k * b) | _ \<Rightarrow> None)"

definition cap_column :: "real \<Rightarrow> series \<Rightarrow> error + series" where
  "cap_column z_threshold col =
     (if has_text col then Inl TypeError
      else let mean = mean (dropna (numbers col));
               std = pandas_std (dropna (numbers col));
               lower_bound = bound mean (- z_threshold) std;
               upper_bound = bound mean z_threshold std
           in Inr (clip lower_bound upper_bound col))"

fun cap_loop :: "real \<Rightarrow> string list \<Rightarrow> dataframe \<Rightarrow> error + dataframe" where
  "cap_loop t [] d = Inr d"
| "cap_loop t (c # cs) d =
     (case get_col d c of
        None \<Rightarrow> cap_loop t cs d
      | Some col \<Rightarrow>
          (case cap_column t col of
             Inl e \<Rightarrow> Inl e
           | Inr col' \<Rightarrow> cap_loop t cs (set_col d c col')))"

definition cap_outliers ::
  "cleaner \<Rightarrow> string list \<Rightarrow> real \<Rightarrow> (error + dataframe) \<times> cleaner" where
  "cap_outliers self cols z_threshold =
     (case cap_loop z_threshold cols (df self) of
        Inl e \<Rightarrow> (Inl e, self)
      | Inr df_capped \<Rightarrow> (Inr df_capped, self\<lparr>df_cleaned := Some df_capped\<rparr>))"

subsection \<open>clean\<close>

text \<open>
  \<^verbatim>\<open>int(self.df['Outlier_Flag'].sum())\<close>: the flags are summed as numbers. The column was
  written by \<open>detect_outliers\<close> just before, so it holds booleans only.
\<close>

definition flag_sum :: "series \<Rightarrow> nat" where
  "flag_sum col = nat \<lfloor>sum_list (dropna (numbers col))\<rfloor>"

definition clean ::
  "cleaner \<Rightarrow> string list option \<Rightarrow> string list option \<Rightarrow> string \<Rightarrow> real
     \<Rightarrow> (error + dataframe) \<times> cleaner" where
  "clean self numeric_columns outlier_columns imputation_method z_threshold =
     (let (stats, s1) = detect_missing_values self 0.05;
          s2 = s1\<lparr>cleaning_stats := (cleaning_stats s1)\<lparr>missing_values := Some stats\<rparr>\<rparr>;
          numeric_columns' =
            (case numeric_columns of None \<Rightarrow> numeric_columns_of (df s2) | Some cs \<Rightarrow> cs)
      in case impute_missing_values s2 (Some numeric_columns') imputation_method of
           (Inl e, s3) \<Rightarrow> (Inl e, s3)
         | (Inr d3, s3) \<Rightarrow>
             (let outlier_columns' =
                    (case outlier_columns of None \<Rightarrow> numeric_columns' | Some cs \<Rightarrow> cs)
              in case detect_outliers s3 outlier_columns' z_threshold of
                   (Inl e, s4) \<Rightarrow> (Inl e, s4)
                 | (Inr d4, s4) \<Rightarrow>
                     (case cap_outliers s4 outlier_columns' z_threshold of
                        (Inl e, s5) \<Rightarrow> (Inl e, s5)
                      | (Inr d5, s5) \<Rightarrow>
                          (let s6 = s5\<lparr>cleaning_stats := (cleaning_stats s5)
                                      \<lparr>outliers := Some (outlier_flags s5),
                                       total_outliers :=
                                         Some (case get_col (df s5) ''Outlier_Flag'' of
                                                 Some f \<Rightarrow> flag_sum f | None \<Rightarrow> 0)\<rparr>\<rparr>
                           in (Inr (case df_cleaned s6 of Some d \<Rightarrow> d | None \<Rightarrow> df s6), s6)))))"

section \<open>The cleaner on a heap of tables\<close>

text \<open>
  Who owns which table: a heap of dataframes addressed by position. \<^verbatim>\<open>df.copy()\<close> allocates
  a new table; every write of a cleaner method goes to the copy it has just made, and the
  cleaner then points at it. The contents written are those of the loops above.
\<close>

type_synonym heap = "dataframe list"

record cleaner_refs =
  df_ref :: nat
  df_cleaned_ref :: "nat option"

definition copy :: "heap \<Rightarrow> nat \<Rightarrow> nat \<times> heap" where
  "copy h r = (length h, h @ [h ! r])"

definition h_init :: "heap \<Rightarrow> nat \<Rightarrow> heap \<times> cleaner_refs" where
  "h_init h r = (let (a, h1) = copy h r in (h1, \<lparr>df_ref = a, df_cleaned_ref = None\<rparr>))"

definition h_detect_missing_values ::
  "heap \<Rightarrow> cleaner_refs \<Rightarrow> real \<Rightarrow> missing_stats \<times> heap \<times> cleaner_refs" where
  "h_detect_missing_values h self threshold =
     (fst (detect_missing_values (init (h ! df_ref self)) threshold), h, self)"

definition h_impute_missing_values ::
  "heap \<Rightarrow> cleaner_refs \<Rightarrow> string list option \<Rightarrow> string \<Rightarrow> (error + nat) \<times> heap \<times> cleaner_refs" where
  "h_impute_missing_values h self cols method =
     (let cols' = (case cols of None \<Rightarrow> numeric_columns_of (h ! df_ref self) | Some cs \<Rightarrow> cs);
          (a, h1) = copy h (df_ref self)
      in case impute_loop method cols' (h1 ! a) of
           Inl e \<Rightarrow> (Inl e, h1, self)
         | Inr d \<Rightarrow> (Inr a, h1[a := d], self\<lparr>df_ref := a\<rparr>))"

definition h_detect_outliers ::
  "heap \<Rightarrow> cleaner_refs \<Rightarrow> string list \<Rightarrow> real \<Rightarrow> (error + nat) \<times> heap \<times> cleaner_refs" where
  "h_detect_outliers h self cols z_threshold =
     (let (a, h1) = copy h (df_ref self);
          h2 = h1[a := set_col (h1 ! a) ''Outlier_Flag'' (replicate (nrows (h1 ! a)) (Flag False))]
      in case detect_loop z_threshold cols (h2 ! a, []) of
           (Inl e, fl) \<Rightarrow> (Inl e, h2, self)
         | (Inr d, fl) \<Rightarrow> (Inr a, h2[a := d], self\<lparr>df_ref := a\<rparr>))"

definition h_cap_outliers ::
  "heap \<Rightarrow> cleaner_refs \<Rightarrow> string list \<Rightarrow> real \<Rightarrow> (error + nat) \<times> heap \<times> cleaner_refs" where
  "h_cap_outliers h self cols z_threshold =
     (let (a, h1) = copy h (df_ref self)
      in case cap_loop z_threshold cols (h1 ! a) of
           Inl e \<Rightarrow> (Inl e, h1, self)
         | Inr d \<Rightarrow> (Inr a, h1[a := d], self\<lparr>df_cleaned_ref := Some a\<rparr>))"

datatype call =
    DetectMissing real
  | Impute "string list option" string
  | DetectOutliers "string list" real
  | CapOutliers "string list" real

fun h_call :: "call \<Rightarrow> heap \<times> cleaner_refs \<Rightarrow> heap \<times> cleaner_refs" where
  "h_call (DetectMissing t) (h, self) = snd (h_detect_missing_values h self t)"
| "h_call (Impute cols m) (h, self) = snd (h_impute_missing_values h self cols m)"
| "h_call (DetectOutliers cols t) (h, self) = snd (h_detect_outliers h self cols t)"
| "h_call (CapOutliers cols t) (h, self) = snd (h_cap_outliers h self cols t)"

text \<open>Any sequence of calls; a call that raises leaves the cleaner as it was and the caller goes on.\<close>

fun h_calls :: "call list \<Rightarrow> heap \<times> cleaner_refs \<Rightarrow> heap \<times> cleaner_refs" where
  "h_calls [] st = st"
| "h_calls (c # cs) st = h_calls cs (h_call c st)"

section \<open>The cross-country synthesizer\<close>

text \<open>
  The file system as the synthesizer sees it. A path does not exist (\<open>None\<close>), or holds a
  file that \<^verbatim>\<open>pd.read_csv\<close> cannot read (empty, ill-formed, not decodable: one error
  stands for these), or holds a file that it reads into a table.
\<close>

datatype csv_file = Unreadable | Table dataframe

type_synonym filesystem = "string \<Rightarrow> csv_file option"

record synthesizer =
  countries_data :: "(string \<times> dataframe) list"
  combined_data :: "dataframe option"

text \<open>\<^verbatim>\<open>__init__\<close>: nothing loaded, nothing combined.\<close>

definition synthesizer_init :: synthesizer where
  "synthesizer_init = \<lparr>countries_data = [], combined_data = None\<rparr>"

text \<open>
  \<^verbatim>\<open>pd.to_datetime(column)\<close> with its default \<^verbatim>\<open>errors='raise'\<close>. The date parser of the
  library is a parameter: given the column (from which the library infers the format) and
  a string of it, the instant the string denotes, as a number, or \<open>None\<close> for a string
  that does not parse, which raises ValueError. A number is an instant already, a missing
  value stays missing, a boolean is a TypeError. The first cell that fails, in row order,
  gives the error.
\<close>

type_synonym date_parser = "series \<Rightarrow> string \<Rightarrow> real option"

fun datetime_cell :: "(string \<Rightarrow> real option) \<Rightarrow> cell \<Rightarrow> error + cell" where
  "datetime_cell parse_string (Text s) =
     (case parse_string s of None \<Rightarrow> Inl ValueError | Some v \<Rightarrow> Inr (Num v))"
| "datetime_cell parse_string (Num x) = Inr (Num x)"
| "datetime_cell parse_string Null = Inr Null"
| "datetime_cell parse_string (Flag b) = Inl TypeError"

fun datetime_cells :: "(string \<Rightarrow> real option) \<Rightarrow> series \<Rightarrow> error + series" where
  "datetime_cells parse_string [] = Inr []"
| "datetime_cells parse_string (c # cs) =
     (case datetime_cell parse_string c of
        Inl e \<Rightarrow> Inl e
      | Inr v \<Rightarrow> (case datetime_cells parse_string cs of
                    Inl e \<Rightarrow> Inl e
                  | Inr vs \<Rightarrow> Inr (v # vs)))"

definition to_datetime :: "date_parser \<Rightarrow> series \<Rightarrow> error + series" where
  "to_datetime parse ts = datetime_cells (parse ts) ts"

text \<open>Lines 64 to 69: the table read from a file, tagged with its country, timestamps parsed.\<close>

definition tag_table :: "date_parser \<Rightarrow> string \<Rightarrow> dataframe \<Rightarrow> error + dataframe" where
  "tag_table parse country_name d0 =
     (let d1 = set_col d0 ''Country'' (replicate (nrows d0) (Text country_name))
      in case get_col d1 ''Timestamp'' of
           None \<Rightarrow> Inr d1
         | Some ts \<Rightarrow>
             (case to_datetime parse ts of
                Inl e \<Rightarrow> Inl e
              | Inr ts' \<Rightarrow> Inr (set_col d1 ''Timestamp'' ts')))"

definition load_country_data ::
  "date_parser \<Rightarrow> filesystem \<Rightarrow> synthesizer \<Rightarrow> string \<Rightarrow> string
     \<Rightarrow> (error + dataframe) \<times> synthesizer" where
  "load_country_data parse fs self country_name file_path =
     (case fs file_path of
        None \<Rightarrow> (Inl FileNotFoundError, self)
      | Some Unreadable \<Rightarrow> (Inl ParserError, self)
      | Some (Table d0) \<Rightarrow>
          (case tag_table parse country_name d0 of
             Inl e \<Rightarrow> (Inl e, self)
           | Inr d \<Rightarrow>
               (Inr d, self\<lparr>countries_data := AList.update country_name d (countries_data self)\<rparr>)))"

text \<open>First occurrences, in order: pandas \<^verbatim>\<open>unique()\<close> and the column order of \<^verbatim>\<open>concat\<close>.\<close>

definition unique :: "'a list \<Rightarrow> 'a list" where
  "unique xs = rev (remdups (rev xs))"

text \<open>
  \<^verbatim>\<open>pd.concat(frames, ignore_index=True)\<close>: no frames is a ValueError; a column absent from a
  frame is filled with missing values for that frame's rows.
\<close>

definition concat_frames :: "dataframe list \<Rightarrow> error + dataframe" where
  "concat_frames ds =
     (if ds = [] then Inl ValueError
      else Inr \<lparr>nrows = sum_list (map nrows ds),
                columns = map (\<lambda>c. (c, concat (map (\<lambda>d. case get_col d c of
                                                          Some xs \<Rightarrow> xs
                                                        | None \<Rightarrow> replicate (nrows d) Null) ds)))
                              (unique (concat (map (\<lambda>d. map fst (columns d)) ds)))\<rparr>)"

text \<open>
  Lines 92 to 101. The mapping is a dict, read in insertion order: an association list
  here. The first load that raises ends the call, before anything is combined.
\<close>

fun load_all ::
  "date_parser \<Rightarrow> filesystem \<Rightarrow> (string \<times> string) list \<Rightarrow> synthesizer \<times> dataframe list
     \<Rightarrow> (error + dataframe list) \<times> synthesizer" where
  "load_all parse fs [] (self, dataframes) = (Inr dataframes, self)"
| "load_all parse fs ((country, file_path) # rest) (self, dataframes) =
     (case load_country_data parse fs self country file_path of
        (Inl e, self') \<Rightarrow> (Inl e, self')
      | (Inr d, self') \<Rightarrow> load_all parse fs rest (self', dataframes @ [d]))"

definition aggregate_all_countries ::
  "date_parser \<Rightarrow> filesystem \<Rightarrow> synthesizer \<Rightarrow> (string \<times> string) list
     \<Rightarrow> (error + dataframe) \<times> synthesizer" where
  "aggregate_all_countries parse fs self file_mapping =
     (case load_all parse fs file_mapping (self, []) of
        (Inl e, self') \<Rightarrow> (Inl e, self')
      | (Inr dataframes, self') \<Rightarrow>
          (case concat_frames dataframes of
             Inl e \<Rightarrow> (Inl e, self')
           | Inr d \<Rightarrow> (Inr d, self'\<lparr>combined_data := Some d\<rparr>)))"

subsection \<open>Observing the files and the combined table\<close>

text \<open>The table read from an existing, readable file (the empty table stands for no table).\<close>

definition table_at :: "filesystem \<Rightarrow> string \<Rightarrow> dataframe" where
  "table_at fs file_path =
     (case fs file_path of Some (Table d) \<Rightarrow> d | _ \<Rightarrow> \<lparr>nrows = 0, columns = []\<rparr>)"

text \<open>An entry of the mapping loads: its file exists, is read, and its timestamps parse.\<close>

definition loads :: "date_parser \<Rightarrow> filesystem \<Rightarrow> string \<times> string \<Rightarrow> bool" where
  "loads parse fs = (\<lambda>(country, file_path).
     case fs file_path of
       Some (Table d0) \<Rightarrow> (case tag_table parse country d0 of Inr d \<Rightarrow> True | Inl e \<Rightarrow> False)
     | _ \<Rightarrow> False)"


text \<open>
  Reading one cell of a table: \<open>None\<close> where the table has no such column or no such row.
\<close>

definition cell_at :: "dataframe \<Rightarrow> string \<Rightarrow> nat \<Rightarrow> cell option" where
  "cell_at d c i =
     (case get_col d c of
        None \<Rightarrow> None
      | Some xs \<Rightarrow> if i < length xs then Some (xs ! i) else None)"

text \<open>The number of rows of the files listed before entry \<open>k\<close> of the mapping.\<close>

definition rows_before :: "filesystem \<Rightarrow> (string \<times> string) list \<Rightarrow> nat \<Rightarrow> nat" where
  "rows_before fs file_mapping k =
     sum_list (map (\<lambda>(country, file_path). nrows (table_at fs file_path)) (take k file_mapping))"

subsection \<open>get_summary_statistics\<close>

text \<open>\<^verbatim>\<open>df[df['Country'] == country]\<close>; a missing value equals nothing, itself included.\<close>

definition select_rows :: "dataframe \<Rightarrow> bool list \<Rightarrow> dataframe" where
  "select_rows d keep =
     \<lparr>nrows = count_true keep,
      columns = map (\<lambda>(c, xs). (c, map fst (filter snd (zip xs keep)))) (columns d)\<rparr>"

definition eq_mask :: "series \<Rightarrow> cell \<Rightarrow> bool list" where
  "eq_mask col v = map (\<lambda>c. c = v \<and> c \<noteq> Null) col"

definition series_min :: "real list \<Rightarrow> real option" where
  "series_min vs = (case vs of [] \<Rightarrow> None | v # ws \<Rightarrow> Some (fold min ws v))"

definition series_max :: "real list \<Rightarrow> real option" where
  "series_max vs = (case vs of [] \<Rightarrow> None | v # ws \<Rightarrow> Some (fold max ws v))"

type_synonym stats_row = "(string \<times> real option) list"

text \<open>The five entries one column adds to the dictionary of a site, in the order of the source.\<close>

definition column_stats :: "string \<Rightarrow> series \<Rightarrow> stats_row" where
  "column_stats col xs =
     (let vs = dropna (numbers xs)
      in [(col @ ''_mean'', mean vs),
          (col @ ''_median'', median vs),
          (col @ ''_std'', pandas_std vs),
          (col @ ''_min'', series_min vs),
          (col @ ''_max'', series_max vs)])"

fun stats_loop :: "string list \<Rightarrow> dataframe \<Rightarrow> stats_row \<Rightarrow> error + stats_row" where
  "stats_loop [] country_df stats = Inr stats"
| "stats_loop (col # cols) country_df stats =
     (case get_col country_df col of
        None \<Rightarrow> stats_loop cols country_df stats
      | Some xs \<Rightarrow>
          if has_text xs then Inl TypeError
          else stats_loop cols country_df
                 (fold (\<lambda>(k, v). AList.update k v) (column_stats col xs) stats))"

fun summary_loop ::
  "cell list \<Rightarrow> dataframe \<Rightarrow> series \<Rightarrow> string list \<Rightarrow> (cell \<times> stats_row) list
     \<Rightarrow> error + (cell \<times> stats_row) list" where
  "summary_loop [] combined tags cols summary_stats = Inr summary_stats"
| "summary_loop (country # rest) combined tags cols summary_stats =
     (let country_df = select_rows combined (eq_mask tags country)
      in case stats_loop cols country_df [] of
           Inl e \<Rightarrow> Inl e
         | Inr stats \<Rightarrow> summary_loop rest combined tags cols (summary_stats @ [(country, stats)]))"

definition get_summary_statistics ::
  "synthesizer \<Rightarrow> string list \<Rightarrow> error + (cell \<times> stats_row) list" where
  "get_summary_statistics self cols =
     (case combined_data self of
        None \<Rightarrow> Inl ValueError
      | Some combined \<Rightarrow>
          (case get_col combined ''Country'' of
             None \<Rightarrow> Inl KeyError
           | Some tags \<Rightarrow> summary_loop (unique tags) combined tags cols []))"

section \<open>What the specification says, in its own words\<close>


text \<open>
  The rows whose population Z-score, computed from the present values of the column only,
  is beyond the threshold in absolute value.
\<close>

definition flagged_by_non_null_zscore :: "real \<Rightarrow> series \<Rightarrow> bool list" where
  "flagged_by_non_null_zscore t col =
     (let vs = dropna (numbers col)
      in case (mean vs, numpy_std vs) of
           (Some m, Some sd) \<Rightarrow>
             map (\<lambda>c. case num_of c of
                        None \<Rightarrow> False
                      | Some x \<Rightarrow> sd \<noteq> 0 \<and> \<bar>(x - m) / sd\<bar> > t) col
         | _ \<Rightarrow> map (\<lambda>c. False) col)"

text \<open>
  A summary is ordered when the means of the primary metric descend from row to row (how
  equal means are ordered is left open here).
\<close>

fun ordered_by_mean :: "string \<Rightarrow> (cell \<times> stats_row) list \<Rightarrow> bool" where
  "ordered_by_mean key [] = True"
| "ordered_by_mean key [r] = True"
| "ordered_by_mean key (r1 # r2 # rs) =
     ((case (map_of (snd r1) key, map_of (snd r2) key) of
         (Some (Some m1), Some (Some m2)) \<Rightarrow> m1 \<ge> m2
       | _ \<Rightarrow> True) \<and> ordered_by_mean key (r2 # rs))"

section \<open>Imputation by mode\<close>













section \<open>Detection and capping\<close>

lemma get_col_set_col: "get_col (set_col d k v) c = (if c = k then Some v else get_col d c)"
  by (simp add: get_col_def set_col_def update_conv')

lemma nrows_set_col: "nrows (set_col d k v) = nrows d"
  by (simp add: set_col_def)

lemma get_col_loc_set_true:
  "c \<noteq> ''Outlier_Flag'' \<Longrightarrow> get_col (loc_set_true m d) c = get_col d c"
  by (simp add: loc_set_true_def Let_def get_col_set_col)

lemma numbers_no_null:
  assumes "\<not> has_text col" "Null \<notin> set col"
  shows "\<not> list_ex (\<lambda>x. x = None) (numbers col) \<and> length (dropna (numbers col)) = length col"
  using assms
proof (induction col)
  case Nil then show ?case by (simp add: numbers_def)
next
  case (Cons a col)
  then show ?case by (cases a) (auto simp: numbers_def has_text_def)
qed

lemma mask_with_null: "outlier_mask (1/2) [Num 1, Num (-1), Null] = Inr [False, False, False]"
  by (simp add: outlier_mask_def has_text_def numbers_def zscore_def zscore_statistics_def)

lemma cap_first: "cap_column (1/2) [Num (-2), Num 0, Num 2] = Inr [Num (-1), Num 0, Num 1]"
  by (simp add: cap_column_def has_text_def numbers_def mean_def pandas_std_def sq_dev_def
      bound_def clip_def clip_cell_def)

lemma cap_second: "cap_column (1/2) [Num (-1), Num 0, Num 1] = Inr [Num (-1/2), Num 0, Num (1/2)]"
  by (simp add: cap_column_def has_text_def numbers_def mean_def pandas_std_def sq_dev_def
      bound_def clip_def clip_cell_def)

text \<open>
  Where no value is missing, the mask of a column is the Z-score test over its values; a
  column of zero standard deviation, for which no score is defined, is flagged nowhere.
\<close>

lemma outlier_mask_without_null:
  assumes "\<not> has_text col" and "Null \<notin> set col"
  shows "outlier_mask t col = Inr (flagged_by_non_null_zscore t col)"
proof -
  let ?vs = "dropna (numbers col)"
  have nn: "\<not> list_ex (\<lambda>x. x = None) (numbers col)"
    using numbers_no_null[OF assms] by simp
  have st: "zscore_statistics (numbers col) = (mean ?vs, numpy_std ?vs)"
    using nn by (simp add: zscore_statistics_def)
  have pres: "\<And>c. c \<in> set col \<Longrightarrow> \<exists>x. num_of c = Some x"
  proof -
    fix c assume c: "c \<in> set col"
    then have "\<not> is_text c" "c \<noteq> Null" using assms by (auto simp: has_text_def list_ex_iff)
    then show "\<exists>x. num_of c = Some x" by (cases c) auto
  qed
  show ?thesis
  proof (cases "mean ?vs")
    case None
    then show ?thesis using assms(1) st
      by (simp add: outlier_mask_def Let_def zscore_def flagged_by_non_null_zscore_def numbers_def)
  next
    case (Some m)
    then have "?vs \<noteq> []" by (auto simp: mean_def split: if_splits)
    then obtain sd where sd: "numpy_std ?vs = Some sd" by (simp add: numpy_std_def)
    show ?thesis
    proof (cases "sd = 0")
      case True
      have "map (\<lambda>c. case num_of c of None \<Rightarrow> False | Some x \<Rightarrow> False) col = map (\<lambda>c. False) col"
        by (rule map_cong) (auto split: option.splits)
      then show ?thesis using assms(1) st Some sd True
        by (auto simp: outlier_mask_def Let_def zscore_def flagged_by_non_null_zscore_def numbers_def
            split: option.splits)
    next
      case False
      have "map ((\<lambda>z. case z of None \<Rightarrow> False | Some v \<Rightarrow> t < \<bar>v\<bar>) \<circ> (map_option (\<lambda>v. (v - m) / sd) \<circ> num_of)) col
            = map (\<lambda>c. case num_of c of None \<Rightarrow> False | Some x \<Rightarrow> t < \<bar>(x - m) / sd\<bar>) col"
        by (rule map_cong) (auto split: option.splits)
      then show ?thesis using assms(1) st Some sd False
        by (auto simp: outlier_mask_def Let_def zscore_def flagged_by_non_null_zscore_def numbers_def
            split: option.splits)
    qed
  qed
qed

text \<open>
  C1 (the code at a column with a missing value). The column 1, -1, NaN with threshold 1/2:
  the population Z-scores of the present values are 1 and -1, both beyond the threshold, yet
  \<open>detect_outliers\<close> flags no row, because the mask is computed from the whole column and
  one NaN turns every score into NaN.
\<close>

theorem detect_outliers_misses_column_with_null:
  "fst (detect_outliers (init \<lparr>nrows = 3, columns = [(''x'', [Num 1, Num (-1), Null])]\<rparr>) [''x''] (1/2))
     = Inr \<lparr>nrows = 3, columns = [(''x'', [Num 1, Num (-1), Null]),
                                   (''Outlier_Flag'', [Flag False, Flag False, Flag False])]\<rparr> \<and>
   flagged_by_non_null_zscore (1/2) [Num 1, Num (-1), Null] = [True, True, False]"
  by (simp add: detect_outliers_def init_def get_col_def set_col_def mask_with_null
      loc_set_true_def numeral_3_eq_3 Let_def flagged_by_non_null_zscore_def numbers_def
      mean_def numpy_std_def sq_dev_def)

text \<open>
  C2 (the code at a column whose capped values lie outside the bounds recomputed from
  them). With threshold 1/2 the column -2, 0, 2 is capped to -1, 0, 1. A cleaner on the
  capped table, capping with the same threshold, returns -1/2, 0, 1/2 and not the table it
  was given, so capping twice is not capping once: the mean and the standard deviation are
  taken from the capped values, and the upper bound they give for -1, 0, 1 is 1/2, below
  the capped maximum 1.
\<close>

theorem cap_outliers_twice_moves_values:
  "fst (cap_outliers (init \<lparr>nrows = 3, columns = [(''x'', [Num (-2), Num 0, Num 2])]\<rparr>) [''x''] (1/2))
     = Inr \<lparr>nrows = 3, columns = [(''x'', [Num (-1), Num 0, Num 1])]\<rparr> \<and>
   fst (cap_outliers (init \<lparr>nrows = 3, columns = [(''x'', [Num (-1), Num 0, Num 1])]\<rparr>) [''x''] (1/2))
     = Inr \<lparr>nrows = 3, columns = [(''x'', [Num (-1/2), Num 0, Num (1/2)])]\<rparr> \<and>
   bound (mean (dropna (numbers [Num (-1), Num 0, Num 1]))) (1/2)
         (pandas_std (dropna (numbers [Num (-1), Num 0, Num 1]))) = Some (1/2)"
  by (simp add: cap_outliers_def init_def get_col_def set_col_def cap_first cap_second
      numbers_def mean_def pandas_std_def sq_dev_def bound_def)

lemma sqrt2_bound: "1 < 9 / 10 * sqrt 2"
proof -
  have "(10 / 9 :: real)\<^sup>2 < 2" by (simp add: power2_eq_square)
  then have "10 / 9 < sqrt 2" by (rule real_less_rsqrt)
  then show ?thesis by simp
qed

lemma mask_pair_low: "outlier_mask (9/10) [Num 1, Num (-1)] = Inr [True, True]"
  by (simp add: outlier_mask_def has_text_def numbers_def zscore_def zscore_statistics_def
      mean_def numpy_std_def sq_dev_def)

lemma clip_within: "1 < b \<Longrightarrow> clip (Some (- b)) (Some b) [Num 1, Num (-1)] = [Num 1, Num (-1)]"
  by (simp add: clip_def clip_cell_def)

lemma cap_pair_low: "cap_column (9/10) [Num 1, Num (-1)] = Inr [Num 1, Num (-1)]"
proof -
  have "cap_column (9/10) [Num 1, Num (-1)]
          = Inr (clip (Some (- (9 / 10 * sqrt 2))) (Some (9 / 10 * sqrt 2)) [Num 1, Num (-1)])"
    by (simp add: cap_column_def has_text_def numbers_def mean_def pandas_std_def sq_dev_def
        bound_def)
  then show ?thesis by (simp only: clip_within[OF sqrt2_bound])
qed

text \<open>
  C3 (the code at a column where the two standard deviations decide differently). One call
  of \<open>clean\<close> with threshold 9/10 on the table with the single column 1, -1: detection
  scores the column with mean 0 and the population standard deviation 1, so both rows
  have a score of size 1 and are flagged; capping takes mean 0 and the sample standard
  deviation, the square root of 2, so its bounds lie beyond both values and nothing is
  capped. The statistics that set the flags are not the statistics that set the bounds.
\<close>

theorem clean_flags_rows_it_does_not_cap:
  "fst (clean (init \<lparr>nrows = 2, columns = [(''x'', [Num 1, Num (-1)])]\<rparr>) None None ''median'' (9/10))
     = Inr \<lparr>nrows = 2, columns = [(''x'', [Num 1, Num (-1)]),
                                   (''Outlier_Flag'', [Flag True, Flag True])]\<rparr> \<and>
   outlier_mask (9/10) [Num 1, Num (-1)] = Inr [True, True] \<and>
   cap_column (9/10) [Num 1, Num (-1)] = Inr [Num 1, Num (-1)] \<and>
   zscore_statistics (numbers [Num 1, Num (-1)]) = (Some 0, Some 1) \<and>
   mean (dropna (numbers [Num 1, Num (-1)])) = Some 0 \<and>
   pandas_std (dropna (numbers [Num 1, Num (-1)])) = Some (sqrt 2)"
proof -
  let ?T = "\<lparr>nrows = 2, columns = [(''x'', [Num 1, Num (-1)])]\<rparr>"
  have "fst (clean (init ?T) None None ''median'' (9/10))
     = Inr \<lparr>nrows = 2, columns = [(''x'', [Num 1, Num (-1)]),
                                   (''Outlier_Flag'', [Flag True, Flag True])]\<rparr>"
    by (simp add: clean_def detect_missing_values_def init_def numeric_columns_of_def
        impute_missing_values_def fill_value_def fillna_def median_def has_text_def numbers_def
        detect_outliers_def get_col_def set_col_def mask_pair_low loc_set_true_def count_true_def
        cap_outliers_def cap_pair_low Let_def numeral_2_eq_2 isna_sum_def pct_def
        split: prod.splits)
  moreover have "zscore_statistics (numbers [Num 1, Num (-1)]) = (Some 0, Some 1)"
    by (simp add: zscore_statistics_def numbers_def mean_def numpy_std_def sq_dev_def)
  moreover have "mean (dropna (numbers [Num 1, Num (-1)])) = Some 0"
    by (simp add: numbers_def mean_def)
  moreover have "pandas_std (dropna (numbers [Num 1, Num (-1)])) = Some (sqrt 2)"
    by (simp add: numbers_def pandas_std_def sq_dev_def)
  ultimately show ?thesis using mask_pair_low cap_pair_low by simp
qed

section \<open>Imputation by median\<close>

lemma median_some:
  assumes "vs \<noteq> []"
  shows "\<exists>m. median vs = Some m"
proof -
  have n: "\<not> length (sort vs) = 0" using assms by simp
  show ?thesis
  proof (cases "odd (length (sort vs))")
    case True
    have "median vs = Some (sort vs ! (length (sort vs) div 2))"
      unfolding median_def Let_def if_not_P[OF n] if_P[OF True] ..
    then show ?thesis ..
  next
    case False
    have "median vs = Some ((sort vs ! (length (sort vs) div 2 - 1) + sort vs ! (length (sort vs) div 2)) / 2)"
      unfolding median_def Let_def if_not_P[OF n] if_not_P[OF False] ..
    then show ?thesis ..
  qed
qed

lemma keys_set_col:
  "get_col d c = Some col \<Longrightarrow> map fst (columns (set_col d c v)) = map fst (columns d)"
proof -
  assume "get_col d c = Some col"
  then have "(c, col) \<in> set (columns d)" unfolding get_col_def by (rule map_of_SomeD)
  then have "c \<in> fst ` set (columns d)" by force
  then show ?thesis by (simp add: set_col_def update_keys)
qed

text \<open>
  C4. For a column of the working table that holds no string and has at least one present
  value, imputing that column with method 'median' succeeds, replaces every missing value
  of it by the median of the present values, so that none is left, and leaves every other
  column, the row count and the column order as they were. The result becomes the
  cleaner's working table.
\<close>

theorem impute_median_fills_column:
  assumes "get_col (df self) c = Some col" and "\<not> has_text col" and "dropna (numbers col) \<noteq> []"
  shows "\<exists>m d. median (dropna (numbers col)) = Some m \<and>
           impute_missing_values self (Some [c]) ''median'' = (Inr d, self\<lparr>df := d\<rparr>) \<and>
           get_col d c = Some (map (\<lambda>x. if x = Null then Num m else x) col) \<and>
           Null \<notin> set (map (\<lambda>x. if x = Null then Num m else x) col) \<and>
           (\<forall>c'. c' \<noteq> c \<longrightarrow> get_col d c' = get_col (df self) c') \<and>
           nrows d = nrows (df self) \<and>
           map fst (columns d) = map fst (columns (df self))"
proof -
  obtain m where m: "median (dropna (numbers col)) = Some m"
    using median_some[OF assms(3)] by blast
  let ?col' = "map (\<lambda>x. if x = Null then Num m else x) col"
  let ?d = "set_col (df self) c ?col'"
  have fv: "fill_value ''median'' col = Inr (Some m)" using assms(2) m by (simp add: fill_value_def)
  have loop: "impute_loop ''median'' [c] (df self) = Inr ?d"
    using assms(1) fv by (simp add: fillna_def)
  have "impute_missing_values self (Some [c]) ''median'' = (Inr ?d, self\<lparr>df := ?d\<rparr>)"
    using loop by (simp add: impute_missing_values_def)
  moreover have "get_col ?d c = Some ?col'" by (simp add: get_col_set_col)
  moreover have "Null \<notin> set ?col'" by auto
  moreover have "\<forall>c'. c' \<noteq> c \<longrightarrow> get_col ?d c' = get_col (df self) c'" by (simp add: get_col_set_col)
  moreover have "nrows ?d = nrows (df self)" by (simp add: nrows_set_col)
  moreover have "map fst (columns ?d) = map fst (columns (df self))" using assms(1) by (rule keys_set_col)
  ultimately show ?thesis using m by blast
qed

theorem impute_median_fills_column_witness:
  "(\<exists>m d. median (dropna (numbers [Num 3, Null, Num 1])) = Some m \<and>
      impute_missing_values
        (init \<lparr>nrows = 3, columns = [(''GHI'', [Num 3, Null, Num 1]), (''DNI'', [Null, Num 5, Num 6])]\<rparr>)
        (Some [''GHI'']) ''median''
      = (Inr d, (init \<lparr>nrows = 3, columns = [(''GHI'', [Num 3, Null, Num 1]), (''DNI'', [Null, Num 5, Num 6])]\<rparr>)\<lparr>df := d\<rparr>) \<and>
      get_col d ''GHI'' = Some [Num 3, Num m, Num 1] \<and>
      get_col d ''DNI'' = Some [Null, Num 5, Num 6]) \<and>
   median (dropna (numbers [Num 3, Null, Num 1])) = Some 2"
proof -
  let ?T = "\<lparr>nrows = 3, columns = [(''GHI'', [Num 3, Null, Num 1]), (''DNI'', [Null, Num 5, Num 6])]\<rparr>"
  have h1: "get_col (df (init ?T)) ''GHI'' = Some [Num 3, Null, Num 1]"
    by (simp add: init_def get_col_def)
  have h2: "\<not> has_text [Num 3, Null, Num 1]" by (simp add: has_text_def)
  have h3: "dropna (numbers [Num 3, Null, Num 1]) \<noteq> []" by (simp add: numbers_def)
  have md: "median (dropna (numbers [Num 3, Null, Num 1])) = Some 2"
    by (simp add: numbers_def median_def Let_def)
  have other: "get_col (df (init ?T)) ''DNI'' = Some [Null, Num 5, Num 6]"
    by (simp add: init_def get_col_def)
  from impute_median_fills_column[OF h1 h2 h3] obtain m d where
    a: "median (dropna (numbers [Num 3, Null, Num 1])) = Some m"
    and b: "impute_missing_values (init ?T) (Some [''GHI'']) ''median'' = (Inr d, (init ?T)\<lparr>df := d\<rparr>)"
    and c: "get_col d ''GHI'' = Some (map (\<lambda>x. if x = Null then Num m else x) [Num 3, Null, Num 1])"
    and e: "\<forall>c'. c' \<noteq> ''GHI'' \<longrightarrow> get_col d c' = get_col (df (init ?T)) c'"
    by blast
  have "get_col d ''DNI'' = Some [Null, Num 5, Num 6]" using e other by simp
  moreover have "get_col d ''GHI'' = Some [Num 3, Num m, Num 1]" using c by simp
  ultimately show ?thesis using a b md by blast
qed

section \<open>Summary statistics\<close>

lemma stat_key_inj:
  assumes "c @ s = c' @ s'"
    and "s \<in> set [''_mean'', ''_median'', ''_std'', ''_min'', ''_max'']"
    and "s' \<in> set [''_mean'', ''_median'', ''_std'', ''_min'', ''_max'']"
  shows "c = c' \<and> s = s'"
proof -
  have "take 3 (rev (c @ s)) = take 3 (rev (c' @ s'))" using assms(1) by simp
  then have "s = s'" using assms(2,3) by auto
  then show ?thesis using assms(1) by simp
qed

lemma keys_column_stats:
  "fst ` set (column_stats c xs) = (\<lambda>s. c @ s) ` set [''_mean'', ''_median'', ''_std'', ''_min'', ''_max'']"
  by (simp add: column_stats_def Let_def)

lemma distinct_column_stats: "distinct (map fst (column_stats c xs))"
  by (simp add: column_stats_def Let_def)

lemma map_of_fold_update:
  "distinct (map fst es) \<Longrightarrow>
   map_of (fold (\<lambda>(k, v). AList.update k v) es st) = map_of st ++ map_of es"
proof (induction es arbitrary: st)
  case Nil then show ?case by simp
next
  case (Cons e es)
  obtain k v where e: "e = (k, v)" by (cases e)
  have d: "distinct (map fst es)" and nk: "k \<notin> fst ` set es" using Cons.prems e by auto
  have "map_of (fold (\<lambda>(k, v). AList.update k v) (e # es) st)
        = map_of (AList.update k v st) ++ map_of es"
    using Cons.IH[OF d] e by simp
  also have "\<dots> = (map_of st)(k \<mapsto> v) ++ map_of es" by (simp add: update_conv')
  also have "\<dots> = (map_of st ++ map_of es)(k \<mapsto> v)"
    using nk by (simp add: map_add_upd_left dom_map_of_conv_image_fst)
  also have "\<dots> = map_of st ++ map_of (e # es)" using e by simp
  finally show ?case .
qed

lemma column_stats_lookup:
  "(k, v) \<in> set (column_stats c xs) \<Longrightarrow> map_of (column_stats c xs) k = Some v"
  using distinct_column_stats[of c xs] by simp

lemma stats_loop_entries:
  assumes "\<forall>c\<in>set cols. \<forall>xs. get_col d c = Some xs \<longrightarrow> \<not> has_text xs"
  shows "\<exists>st'. stats_loop cols d st = Inr st' \<and>
           (\<forall>c\<in>set cols. \<forall>xs. get_col d c = Some xs \<longrightarrow>
              (\<forall>(k, v)\<in>set (column_stats c xs). map_of st' k = Some v)) \<and>
           (\<forall>k. (\<forall>c\<in>set cols. \<forall>xs. get_col d c = Some xs \<longrightarrow> k \<notin> fst ` set (column_stats c xs))
              \<longrightarrow> map_of st' k = map_of st k)"
  using assms
proof (induction cols arbitrary: st)
  case Nil then show ?case by simp
next
  case (Cons c rest)
  have ok: "\<forall>c\<in>set rest. \<forall>xs. get_col d c = Some xs \<longrightarrow> \<not> has_text xs" using Cons.prems by simp
  show ?case
  proof (cases "get_col d c")
    case None
    from Cons.IH[OF ok, of st] obtain st' where
      "stats_loop rest d st = Inr st'"
      "\<forall>c\<in>set rest. \<forall>xs. get_col d c = Some xs \<longrightarrow> (\<forall>(k, v)\<in>set (column_stats c xs). map_of st' k = Some v)"
      "\<forall>k. (\<forall>c\<in>set rest. \<forall>xs. get_col d c = Some xs \<longrightarrow> k \<notin> fst ` set (column_stats c xs))
              \<longrightarrow> map_of st' k = map_of st k" by blast
    then show ?thesis using None by auto
  next
    case (Some xs)
    let ?st1 = "fold (\<lambda>(k, v). AList.update k v) (column_stats c xs) st"
    have nt: "\<not> has_text xs" using Cons.prems Some by simp
    from Cons.IH[OF ok, of ?st1] obtain st' where
      run: "stats_loop rest d ?st1 = Inr st'"
      and ent: "\<forall>c\<in>set rest. \<forall>xs. get_col d c = Some xs \<longrightarrow> (\<forall>(k, v)\<in>set (column_stats c xs). map_of st' k = Some v)"
      and frame: "\<forall>k. (\<forall>c\<in>set rest. \<forall>xs. get_col d c = Some xs \<longrightarrow> k \<notin> fst ` set (column_stats c xs))
              \<longrightarrow> map_of st' k = map_of ?st1 k" by blast
    have m1: "map_of ?st1 = map_of st ++ map_of (column_stats c xs)"
      by (rule map_of_fold_update[OF distinct_column_stats])
    have r: "stats_loop (c # rest) d st = Inr st'" using Some nt run by simp
    have e_c: "\<forall>(k, v)\<in>set (column_stats c xs). map_of st' k = Some v"
    proof (cases "c \<in> set rest")
      case True
      then show ?thesis using ent Some by blast
    next
      case False
      show ?thesis
      proof (clarify)
        fix k v assume kv: "(k, v) \<in> set (column_stats c xs)"
        then have "k \<in> fst ` set (column_stats c xs)" by force
        then obtain s where s: "s \<in> set [''_mean'', ''_median'', ''_std'', ''_min'', ''_max'']" "k = c @ s"
          unfolding keys_column_stats by blast
        have "\<forall>c'\<in>set rest. \<forall>xs'. get_col d c' = Some xs' \<longrightarrow> k \<notin> fst ` set (column_stats c' xs')"
        proof (intro ballI allI impI notI)
          fix c' xs' assume c': "c' \<in> set rest" and "k \<in> fst ` set (column_stats c' xs')"
          then obtain s' where "s' \<in> set [''_mean'', ''_median'', ''_std'', ''_min'', ''_max'']" "k = c' @ s'"
            unfolding keys_column_stats by blast
          then have "c = c'" using s stat_key_inj[of c s c' s'] by simp
          then show False using c' False by simp
        qed
        then have "map_of st' k = map_of ?st1 k" using frame by blast
        also have "\<dots> = Some v" using m1 column_stats_lookup[OF kv] by (simp add: map_add_def)
        finally show "map_of st' k = Some v" .
      qed
    qed
    have e_all: "\<forall>c'\<in>set (c # rest). \<forall>xs'. get_col d c' = Some xs' \<longrightarrow>
              (\<forall>(k, v)\<in>set (column_stats c' xs'). map_of st' k = Some v)"
      using e_c ent Some by auto
    have f_all: "\<forall>k. (\<forall>c'\<in>set (c # rest). \<forall>xs'. get_col d c' = Some xs' \<longrightarrow> k \<notin> fst ` set (column_stats c' xs'))
              \<longrightarrow> map_of st' k = map_of st k"
    proof (intro allI impI)
      fix k assume a: "\<forall>c'\<in>set (c # rest). \<forall>xs'. get_col d c' = Some xs' \<longrightarrow> k \<notin> fst ` set (column_stats c' xs')"
      then have "k \<notin> fst ` set (column_stats c xs)" using Some by simp
      then have "map_of (column_stats c xs) k = None" by (simp add: map_of_eq_None_iff)
      then have "map_of ?st1 k = map_of st k" using m1 by (simp add: map_add_def)
      moreover have "map_of st' k = map_of ?st1 k" using frame a by simp
      ultimately show "map_of st' k = map_of st k" by simp
    qed
    show ?thesis using r e_all f_all by blast
  qed
qed

lemma get_col_select_rows:
  "get_col (select_rows d keep) c
     = map_option (\<lambda>xs. map fst (filter snd (zip xs keep))) (get_col d c)"
proof -
  have "map_of (map (\<lambda>(k, v). (k, f v)) al) c = map_option f (map_of al c)"
    for f :: "series \<Rightarrow> series" and al
    by (induction al) auto
  then show ?thesis by (simp add: get_col_def select_rows_def)
qed

lemma has_text_selected: "\<not> has_text xs \<Longrightarrow> \<not> has_text (map fst (filter snd (zip xs keep)))"
proof
  assume a: "\<not> has_text xs" and b: "has_text (map fst (filter snd (zip xs keep)))"
  from b obtain x where x: "x \<in> set (map fst (filter snd (zip xs keep)))" "is_text x"
    unfolding has_text_def list_ex_iff by blast
  then have "x \<in> fst ` set (zip xs keep)" by auto
  then obtain b where "(x, b) \<in> set (zip xs keep)" by force
  then have "x \<in> set xs" by (rule set_zip_leftD)
  then show False using a x(2) unfolding has_text_def list_ex_iff by blast
qed

lemma summary_loop_rows:
  assumes "\<forall>c\<in>set cols. \<forall>xs. get_col combined c = Some xs \<longrightarrow> \<not> has_text xs"
  shows "\<exists>rest. summary_loop sites combined tags cols acc = Inr (acc @ rest) \<and>
           map fst rest = sites \<and>
           (\<forall>(site, stats)\<in>set rest. \<forall>c\<in>set cols. \<forall>xs. get_col combined c = Some xs \<longrightarrow>
              (\<forall>(k, v)\<in>set (column_stats c (map fst (filter snd (zip xs (eq_mask tags site))))).
                 map_of stats k = Some v))"
proof (induction sites arbitrary: acc)
  case Nil then show ?case by simp
next
  case (Cons site sites)
  let ?df = "select_rows combined (eq_mask tags site)"
  have ok: "\<forall>c\<in>set cols. \<forall>xs. get_col ?df c = Some xs \<longrightarrow> \<not> has_text xs"
    using assms by (auto simp: get_col_select_rows dest: has_text_selected)
  from stats_loop_entries[OF ok, of "[]"] obtain stats where
    run: "stats_loop cols ?df [] = Inr stats"
    and ent: "\<forall>c\<in>set cols. \<forall>xs. get_col ?df c = Some xs \<longrightarrow>
              (\<forall>(k, v)\<in>set (column_stats c xs). map_of stats k = Some v)" by blast
  have ent': "\<forall>c\<in>set cols. \<forall>xs. get_col combined c = Some xs \<longrightarrow>
              (\<forall>(k, v)\<in>set (column_stats c (map fst (filter snd (zip xs (eq_mask tags site))))).
                 map_of stats k = Some v)"
    using ent by (simp add: get_col_select_rows)
  from Cons.IH[of "acc @ [(site, stats)]"] obtain rest where
    a: "summary_loop sites combined tags cols (acc @ [(site, stats)]) = Inr ((acc @ [(site, stats)]) @ rest)"
    and b: "map fst rest = sites"
    and c: "\<forall>(site, stats)\<in>set rest. \<forall>c\<in>set cols. \<forall>xs. get_col combined c = Some xs \<longrightarrow>
              (\<forall>(k, v)\<in>set (column_stats c (map fst (filter snd (zip xs (eq_mask tags site))))).
                 map_of stats k = Some v)" by blast
  have A: "summary_loop (site # sites) combined tags cols acc = Inr (acc @ ((site, stats) # rest))"
    using run a by (simp add: Let_def)
  have B: "map fst ((site, stats) # rest) = site # sites" using b by simp
  have C: "\<forall>(site, stats)\<in>set ((site, stats) # rest). \<forall>c\<in>set cols. \<forall>xs. get_col combined c = Some xs \<longrightarrow>
              (\<forall>(k, v)\<in>set (column_stats c (map fst (filter snd (zip xs (eq_mask tags site))))).
                 map_of stats k = Some v)"
    using c ent' by simp
  show ?case by (rule exI[of _ "(site, stats) # rest"]) (intro conjI A B C)
qed

lemma summary_of_two_sites:
  "get_summary_statistics
     \<lparr>countries_data = [],
      combined_data = Some \<lparr>nrows = 2, columns = [(''GHI'', [Num 1, Num 2]),
                                                  (''Country'', [Text ''A'', Text ''B''])]\<rparr>\<rparr>
     [''GHI'']
   = Inr [(Text ''A'', [(''GHI_mean'', Some 1), (''GHI_median'', Some 1), (''GHI_std'', None),
                        (''GHI_min'', Some 1), (''GHI_max'', Some 1)]),
          (Text ''B'', [(''GHI_mean'', Some 2), (''GHI_median'', Some 2), (''GHI_std'', None),
                        (''GHI_min'', Some 2), (''GHI_max'', Some 2)])]"
  by (simp add: get_summary_statistics_def get_col_def unique_def select_rows_def eq_mask_def
      Let_def has_text_def column_stats_def numbers_def mean_def median_def pandas_std_def
      series_min_def series_max_def count_true_def)


text \<open>
  C6 (as the code has it). Before aggregation \<open>get_summary_statistics\<close> fails with ValueError
  (the NotReadyError of the specification). After it, when no requested column holds a
  string, it returns one row for each site tag, in the order in which the tags first appear
  in the combined table, and the row of a site holds, for every requested column of the
  table, the mean, median, sample standard deviation, minimum and maximum of the present
  values of that column in the rows of the site.
\<close>

theorem summary_statistics_by_site:
  "(combined_data self = None \<longrightarrow> get_summary_statistics self cols = Inl ValueError) \<and>
   (\<forall>combined tags.
      combined_data self = Some combined \<and> get_col combined ''Country'' = Some tags \<and>
      (\<forall>c\<in>set cols. \<forall>xs. get_col combined c = Some xs \<longrightarrow> \<not> has_text xs) \<longrightarrow>
      (\<exists>rows. get_summary_statistics self cols = Inr rows \<and>
         map fst rows = unique tags \<and>
         (\<forall>(site, stats)\<in>set rows. \<forall>c\<in>set cols. \<forall>xs. get_col combined c = Some xs \<longrightarrow>
            (\<forall>(k, v)\<in>set (column_stats c (map fst (filter snd (zip xs (eq_mask tags site))))).
               map_of stats k = Some v))))"
proof (intro conjI allI impI)
  assume "combined_data self = None"
  then show "get_summary_statistics self cols = Inl ValueError"
    by (simp add: get_summary_statistics_def)
next
  fix combined tags
  assume a: "combined_data self = Some combined \<and> get_col combined ''Country'' = Some tags \<and>
      (\<forall>c\<in>set cols. \<forall>xs. get_col combined c = Some xs \<longrightarrow> \<not> has_text xs)"
  then have ok: "\<forall>c\<in>set cols. \<forall>xs. get_col combined c = Some xs \<longrightarrow> \<not> has_text xs" by blast
  from summary_loop_rows[OF ok, of "unique tags" tags "[]"] obtain rest where
    "summary_loop (unique tags) combined tags cols [] = Inr rest"
    "map fst rest = unique tags"
    "\<forall>(site, stats)\<in>set rest. \<forall>c\<in>set cols. \<forall>xs. get_col combined c = Some xs \<longrightarrow>
              (\<forall>(k, v)\<in>set (column_stats c (map fst (filter snd (zip xs (eq_mask tags site))))).
                 map_of stats k = Some v)" by auto
  then show "\<exists>rows. get_summary_statistics self cols = Inr rows \<and>
         map fst rows = unique tags \<and>
         (\<forall>(site, stats)\<in>set rows. \<forall>c\<in>set cols. \<forall>xs. get_col combined c = Some xs \<longrightarrow>
            (\<forall>(k, v)\<in>set (column_stats c (map fst (filter snd (zip xs (eq_mask tags site))))).
               map_of stats k = Some v))"
    using a by (auto simp: get_summary_statistics_def)
qed

theorem summary_statistics_by_site_witness:
  "get_summary_statistics synthesizer_init [''GHI''] = Inl ValueError \<and>
   (\<exists>rows. get_summary_statistics
              \<lparr>countries_data = [],
               combined_data = Some \<lparr>nrows = 2, columns = [(''GHI'', [Num 1, Num 2]),
                                                           (''Country'', [Text ''A'', Text ''B''])]\<rparr>\<rparr>
              [''GHI''] = Inr rows \<and>
           map fst rows = [Text ''A'', Text ''B''])"
proof -
  let ?T = "\<lparr>nrows = 2, columns = [(''GHI'', [Num 1, Num 2]), (''Country'', [Text ''A'', Text ''B''])]\<rparr>"
  let ?S = "\<lparr>countries_data = [], combined_data = Some ?T\<rparr>"
  have h0: "combined_data synthesizer_init = None" by (simp add: synthesizer_init_def)
  have h1: "combined_data ?S = Some ?T" by simp
  have h2: "get_col ?T ''Country'' = Some [Text ''A'', Text ''B'']" by (simp add: get_col_def)
  have h3: "\<forall>c\<in>set [''GHI'']. \<forall>xs. get_col ?T c = Some xs \<longrightarrow> \<not> has_text xs"
    by (simp add: get_col_def has_text_def)
  have u: "unique [Text ''A'', Text ''B''] = [Text ''A'', Text ''B'']" by (simp add: unique_def)
  have a: "get_summary_statistics synthesizer_init [''GHI''] = Inl ValueError"
    using summary_statistics_by_site[of synthesizer_init "[''GHI'']"] h0 by blast
  have "\<exists>rows. get_summary_statistics ?S [''GHI''] = Inr rows \<and>
          map fst rows = unique [Text ''A'', Text ''B'']"
    using summary_statistics_by_site[of ?S "[''GHI'']"] h1 h2 h3 by blast
  then show ?thesis using a u by simp
qed

text \<open>
  C6 (as stated) fails: the rows are not sorted. With site A (GHI 1) before site B (GHI 2)
  in the combined table, the summary lists A, mean 1, before B, mean 2.
\<close>

theorem summary_not_ordered_counterexample:
  "get_summary_statistics
     \<lparr>countries_data = [],
      combined_data = Some \<lparr>nrows = 2, columns = [(''GHI'', [Num 1, Num 2]),
                                                  (''Country'', [Text ''A'', Text ''B''])]\<rparr>\<rparr>
     [''GHI'']
   = Inr [(Text ''A'', [(''GHI_mean'', Some 1), (''GHI_median'', Some 1), (''GHI_std'', None),
                        (''GHI_min'', Some 1), (''GHI_max'', Some 1)]),
          (Text ''B'', [(''GHI_mean'', Some 2), (''GHI_median'', Some 2), (''GHI_std'', None),
                        (''GHI_min'', Some 2), (''GHI_max'', Some 2)])] \<and>
   \<not> ordered_by_mean ''GHI_mean''
       [(Text ''A'', [(''GHI_mean'', Some 1), (''GHI_median'', Some 1), (''GHI_std'', None),
                      (''GHI_min'', Some 1), (''GHI_max'', Some 1)]),
        (Text ''B'', [(''GHI_mean'', Some 2), (''GHI_median'', Some 2), (''GHI_std'', None),
                      (''GHI_min'', Some 2), (''GHI_max'', Some 2)])]"
  using summary_of_two_sites by simp

section \<open>Ownership of tables\<close>

lemma h_impute_extends: "\<exists>ext. fst (snd (h_impute_missing_values h self cols m)) = h @ ext"
  by (simp add: h_impute_missing_values_def copy_def Let_def split: sum.splits)

lemma h_detect_extends: "\<exists>ext. fst (snd (h_detect_outliers h self cols t)) = h @ ext"
  by (simp add: h_detect_outliers_def copy_def Let_def split: sum.splits prod.splits)

lemma h_cap_extends: "\<exists>ext. fst (snd (h_cap_outliers h self cols t)) = h @ ext"
  by (simp add: h_cap_outliers_def copy_def Let_def split: sum.splits)

lemma h_call_extends: "\<exists>ext. fst (h_call c (h, self)) = h @ ext"
proof (cases c)
  case (DetectMissing t)
  then show ?thesis by (simp add: h_detect_missing_values_def)
next
  case (Impute cols m)
  then show ?thesis using h_impute_extends[of h self cols m] by simp
next
  case (DetectOutliers cols t)
  then show ?thesis using h_detect_extends[of h self cols t] by simp
next
  case (CapOutliers cols t)
  then show ?thesis using h_cap_extends[of h self cols t] by simp
qed

lemma h_calls_extends: "\<exists>ext. fst (h_calls cs (h, self)) = h @ ext"
proof (induction cs arbitrary: h self)
  case Nil then show ?case by simp
next
  case (Cons c cs)
  obtain h1 s1 where st: "h_call c (h, self) = (h1, s1)" by (cases "h_call c (h, self)")
  from h_call_extends[of c h self] st obtain e1 where e1: "h1 = h @ e1" by auto
  from Cons.IH[of h1 s1] obtain e2 where "fst (h_calls cs (h1, s1)) = h1 @ e2" by blast
  then have "fst (h_calls (c # cs) (h, self)) = h @ (e1 @ e2)" using st e1 by simp
  then show ?case by blast
qed

text \<open>
  C10. The cleaner is built on a copy of the caller's table, stored at a new address with
  the same contents. Whatever sequence of \<open>detect_missing_values\<close>,
  \<open>impute_missing_values\<close>, \<open>detect_outliers\<close> and \<open>cap_outliers\<close> follows, the table at the
  caller's address is what it was: every method writes only to the copy it has just
  allocated. \<open>detect_missing_values\<close> changes neither the heap nor the cleaner.
\<close>

theorem caller_table_untouched:
  assumes "r < length h"
  shows "fst (h_calls calls (h_init h r)) ! r = h ! r \<and>
         df_ref (snd (h_init h r)) \<noteq> r \<and>
         fst (h_init h r) ! df_ref (snd (h_init h r)) = h ! r \<and>
         (\<forall>h' self t. snd (h_detect_missing_values h' self t) = (h', self))"
proof -
  let ?self = "\<lparr>df_ref = length h, df_cleaned_ref = None\<rparr>"
  have i: "h_init h r = (h @ [h ! r], ?self)" by (simp add: h_init_def copy_def)
  from h_calls_extends[of calls "h @ [h ! r]" ?self] obtain ext where
    "fst (h_calls calls (h @ [h ! r], ?self)) = (h @ [h ! r]) @ ext" by blast
  then have "fst (h_calls calls (h_init h r)) ! r = h ! r"
    using assms i by (simp add: nth_append)
  moreover have "df_ref (snd (h_init h r)) \<noteq> r" using assms i by simp
  moreover have "fst (h_init h r) ! df_ref (snd (h_init h r)) = h ! r" using i by simp
  moreover have "\<forall>h' self t. snd (h_detect_missing_values h' self t) = (h', self)"
    by (simp add: h_detect_missing_values_def)
  ultimately show ?thesis by blast
qed

theorem caller_table_untouched_witness:
  "fst (h_calls [Impute (Some [''x'']) ''median'', DetectOutliers [''x''] 3, CapOutliers [''x''] 3]
         (h_init [\<lparr>nrows = 2, columns = [(''x'', [Num 1, Null])]\<rparr>] 0)) ! 0
     = \<lparr>nrows = 2, columns = [(''x'', [Num 1, Null])]\<rparr>"
proof -
  have h: "0 < length [\<lparr>nrows = 2, columns = [(''x'', [Num 1, Null])]\<rparr>]" by simp
  show ?thesis
    using caller_table_untouched[OF h,
        of "[Impute (Some [''x'']) ''median'', DetectOutliers [''x''] 3, CapOutliers [''x''] 3]"]
    by simp
qed

section \<open>Accumulation of outlier flags\<close>

lemma zscore_length: "length (zscore a) = length a"
  by (simp add: zscore_def split: prod.splits option.splits)

lemma outlier_mask_length: "outlier_mask t col = Inr m \<Longrightarrow> length m = length col"
  by (auto simp: outlier_mask_def Let_def zscore_length numbers_def split: if_splits)

lemma outlier_mask_defined: "\<not> has_text col \<Longrightarrow> \<exists>m. outlier_mask t col = Inr m"
  by (simp add: outlier_mask_def Let_def)

lemma wf_col_length: "wf_table d \<Longrightarrow> get_col d c = Some col \<Longrightarrow> length col = nrows d"
proof -
  assume w: "wf_table d" and g: "get_col d c = Some col"
  from g have "(c, col) \<in> set (columns d)" unfolding get_col_def by (rule map_of_SomeD)
  then show ?thesis using w by (auto simp: wf_table_def list_all_iff)
qed

lemma list_all_update:
  "list_all P al \<Longrightarrow> P (k, v) \<Longrightarrow> list_all P (AList.update k v al)"
  by (induction al) auto

lemma wf_set_col: "wf_table d \<Longrightarrow> length v = nrows d \<Longrightarrow> wf_table (set_col d k v)"
  by (simp add: wf_table_def set_col_def list_all_update)

lemma loc_set_true_flags:
  assumes "get_col d ''Outlier_Flag'' = Some f"
  shows "get_col (loc_set_true m d) ''Outlier_Flag''
           = Some (map (\<lambda>(c, b). if b then Flag True else c) (zip f m))"
  using assms by (simp add: loc_set_true_def get_col_set_col)

lemma nrows_loc_set_true: "nrows (loc_set_true m d) = nrows d"
  by (simp add: loc_set_true_def Let_def nrows_set_col)

lemma wf_loc_set_true:
  assumes "wf_table d" "get_col d ''Outlier_Flag'' = Some f" "length m = nrows d"
  shows "wf_table (loc_set_true m d)"
proof -
  have "length f = nrows d" using assms(1,2) by (rule wf_col_length)
  then show ?thesis using assms by (simp add: loc_set_true_def wf_set_col)
qed

lemma detect_loop_flags:
  assumes "wf_table d" and "get_col d ''Outlier_Flag'' = Some f"
    and "\<forall>x\<in>set f. \<exists>b. x = Flag b"
    and "''Outlier_Flag'' \<notin> set cs"
    and "\<forall>c\<in>set cs. \<forall>col. get_col d c = Some col \<longrightarrow> \<not> has_text col"
  shows "\<exists>d' fl' f'. detect_loop t cs (d, fl) = (Inr d', fl') \<and>
           get_col d' ''Outlier_Flag'' = Some f' \<and> length f' = nrows d \<and>
           (\<forall>x\<in>set f'. \<exists>b. x = Flag b) \<and>
           (\<forall>i<nrows d. (f' ! i = Flag True) =
              (f ! i = Flag True \<or>
               (\<exists>c\<in>set cs. \<exists>col m. get_col d c = Some col \<and> outlier_mask t col = Inr m \<and> m ! i)))"
  using assms
proof (induction cs arbitrary: d f fl)
  case Nil
  have "length f = nrows d" using Nil.prems(1,2) by (rule wf_col_length)
  then show ?case using Nil.prems by simp
next
  case (Cons c rest)
  have lf: "length f = nrows d" using Cons.prems(1,2) by (rule wf_col_length)
  have cne: "c \<noteq> ''Outlier_Flag''" and rne: "''Outlier_Flag'' \<notin> set rest"
    using Cons.prems(4) by auto
  have okr: "\<forall>c\<in>set rest. \<forall>col. get_col d c = Some col \<longrightarrow> \<not> has_text col"
    using Cons.prems(5) by simp
  show ?case
  proof (cases "get_col d c")
    case None
    from Cons.IH[OF Cons.prems(1,2,3) rne okr, of fl] obtain d' fl' f' where
      a: "detect_loop t rest (d, fl) = (Inr d', fl')"
      and b: "get_col d' ''Outlier_Flag'' = Some f'" "length f' = nrows d" "\<forall>x\<in>set f'. \<exists>b. x = Flag b"
      and e: "\<forall>i<nrows d. (f' ! i = Flag True) =
              (f ! i = Flag True \<or>
               (\<exists>c\<in>set rest. \<exists>col m. get_col d c = Some col \<and> outlier_mask t col = Inr m \<and> m ! i))"
      by blast
    have A: "detect_loop t (c # rest) (d, fl) = (Inr d', fl')" using None a by simp
    have E: "\<forall>i<nrows d. (f' ! i = Flag True) =
              (f ! i = Flag True \<or>
               (\<exists>c\<in>set (c # rest). \<exists>col m. get_col d c = Some col \<and> outlier_mask t col = Inr m \<and> m ! i))"
      using e None by simp
    show ?thesis using A b E by blast
  next
    case (Some col)
    have "\<not> has_text col" using Cons.prems(5) Some by simp
    then obtain m where m: "outlier_mask t col = Inr m" using outlier_mask_defined by blast
    have lm: "length m = nrows d"
      using outlier_mask_length[OF m] wf_col_length[OF Cons.prems(1) Some] by simp
    let ?d1 = "loc_set_true m d"
    let ?f1 = "map (\<lambda>(c, b). if b then Flag True else c) (zip f m)"
    let ?fl1 = "AList.update c \<lparr>count = count_true m, percentage = pct (count_true m) (nrows d)\<rparr> fl"
    have w1: "wf_table ?d1" using Cons.prems(1,2) lm by (rule wf_loc_set_true)
    have g1: "get_col ?d1 ''Outlier_Flag'' = Some ?f1" using Cons.prems(2) by (rule loc_set_true_flags)
    have b1: "\<forall>x\<in>set ?f1. \<exists>b. x = Flag b"
    proof
      fix x assume "x \<in> set ?f1"
      then obtain y b where "(y, b) \<in> set (zip f m)" "x = (if b then Flag True else y)" by auto
      moreover then have "y \<in> set f" by (auto dest: set_zip_leftD)
      ultimately show "\<exists>b. x = Flag b" using Cons.prems(3) by auto
    qed
    have same: "\<And>c'. c' \<noteq> ''Outlier_Flag'' \<Longrightarrow> get_col ?d1 c' = get_col d c'"
      by (rule get_col_loc_set_true)
    have ok1: "\<forall>c\<in>set rest. \<forall>col. get_col ?d1 c = Some col \<longrightarrow> \<not> has_text col"
      using okr rne same by (metis)
    from Cons.IH[OF w1 g1 b1 rne ok1, of ?fl1] obtain d' fl' f' where
      a: "detect_loop t rest (?d1, ?fl1) = (Inr d', fl')"
      and b: "get_col d' ''Outlier_Flag'' = Some f'" "length f' = nrows ?d1" "\<forall>x\<in>set f'. \<exists>b. x = Flag b"
      and e: "\<forall>i<nrows ?d1. (f' ! i = Flag True) =
              (?f1 ! i = Flag True \<or>
               (\<exists>c\<in>set rest. \<exists>col m. get_col ?d1 c = Some col \<and> outlier_mask t col = Inr m \<and> m ! i))"
      by blast
    have A: "detect_loop t (c # rest) (d, fl) = (Inr d', fl')" using Some m a by simp
    have L: "length f' = nrows d" using b(2) by (simp add: nrows_loc_set_true)
    have E: "\<forall>i<nrows d. (f' ! i = Flag True) =
              (f ! i = Flag True \<or>
               (\<exists>c\<in>set (c # rest). \<exists>col m. get_col d c = Some col \<and> outlier_mask t col = Inr m \<and> m ! i))"
    proof (intro allI impI)
      fix i assume i: "i < nrows d"
      have f1i: "(?f1 ! i = Flag True) = (f ! i = Flag True \<or> m ! i)"
        using i lf lm by simp
      have restq: "(\<exists>c\<in>set rest. \<exists>col m. get_col ?d1 c = Some col \<and> outlier_mask t col = Inr m \<and> m ! i)
            = (\<exists>c\<in>set rest. \<exists>col m. get_col d c = Some col \<and> outlier_mask t col = Inr m \<and> m ! i)"
        using rne same by (metis)
      have "(f' ! i = Flag True) = (?f1 ! i = Flag True \<or>
               (\<exists>c\<in>set rest. \<exists>col m. get_col ?d1 c = Some col \<and> outlier_mask t col = Inr m \<and> m ! i))"
        using e i by (simp add: nrows_loc_set_true)
      then show "(f' ! i = Flag True) =
              (f ! i = Flag True \<or>
               (\<exists>c\<in>set (c # rest). \<exists>col m. get_col d c = Some col \<and> outlier_mask t col = Inr m \<and> m ! i))"
        using f1i restq Some m by auto
    qed
    show ?thesis using A b(1) L b(3) E by blast
  qed
qed

lemma detect_outliers_flags:
  assumes "wf_table (df self)" and "''Outlier_Flag'' \<notin> set cols"
    and "\<forall>c\<in>set cols. \<forall>col. get_col (df self) c = Some col \<longrightarrow> \<not> has_text col"
  shows "\<exists>d self' f. detect_outliers self cols t = (Inr d, self') \<and> df self' = d \<and>
           get_col d ''Outlier_Flag'' = Some f \<and> length f = nrows (df self) \<and>
           (\<forall>x\<in>set f. \<exists>b. x = Flag b) \<and>
           (\<forall>i<nrows (df self). (f ! i = Flag True) =
              (\<exists>c\<in>set cols. \<exists>col m. get_col (df self) c = Some col \<and>
                                       outlier_mask t col = Inr m \<and> m ! i))"
proof -
  let ?f0 = "replicate (nrows (df self)) (Flag False)"
  let ?d0 = "set_col (df self) ''Outlier_Flag'' ?f0"
  have w0: "wf_table ?d0" using assms(1) by (simp add: wf_set_col)
  have g0: "get_col ?d0 ''Outlier_Flag'' = Some ?f0" by (simp add: get_col_set_col)
  have b0: "\<forall>x\<in>set ?f0. \<exists>b. x = Flag b"
  proof
    fix x assume "x \<in> set ?f0"
    then have "x = Flag False" by simp
    then show "\<exists>b. x = Flag b" ..
  qed
  have same: "\<And>c. c \<noteq> ''Outlier_Flag'' \<Longrightarrow> get_col ?d0 c = get_col (df self) c"
    by (simp add: get_col_set_col)
  have ok0: "\<forall>c\<in>set cols. \<forall>col. get_col ?d0 c = Some col \<longrightarrow> \<not> has_text col"
    using assms(2,3) same by metis
  from detect_loop_flags[OF w0 g0 b0 assms(2) ok0, of t "outlier_flags self"]
  obtain d fl f where
    a: "detect_loop t cols (?d0, outlier_flags self) = (Inr d, fl)"
    and b: "get_col d ''Outlier_Flag'' = Some f" "length f = nrows ?d0" "\<forall>x\<in>set f. \<exists>b. x = Flag b"
    and e: "\<forall>i<nrows ?d0. (f ! i = Flag True) =
              (?f0 ! i = Flag True \<or>
               (\<exists>c\<in>set cols. \<exists>col m. get_col ?d0 c = Some col \<and> outlier_mask t col = Inr m \<and> m ! i))"
    by blast
  have A: "detect_outliers self cols t = (Inr d, self\<lparr>df := d, outlier_flags := fl\<rparr>)"
    using a by (simp add: detect_outliers_def Let_def)
  have L: "length f = nrows (df self)" using b(2) by (simp add: nrows_set_col)
  have E: "\<forall>i<nrows (df self). (f ! i = Flag True) =
              (\<exists>c\<in>set cols. \<exists>col m. get_col (df self) c = Some col \<and>
                                       outlier_mask t col = Inr m \<and> m ! i)"
  proof (intro allI impI)
    fix i assume i: "i < nrows (df self)"
    have q: "(\<exists>c\<in>set cols. \<exists>col m. get_col ?d0 c = Some col \<and> outlier_mask t col = Inr m \<and> m ! i)
          = (\<exists>c\<in>set cols. \<exists>col m. get_col (df self) c = Some col \<and> outlier_mask t col = Inr m \<and> m ! i)"
      using assms(2) same by metis
    have "(f ! i = Flag True) = (?f0 ! i = Flag True \<or>
               (\<exists>c\<in>set cols. \<exists>col m. get_col ?d0 c = Some col \<and> outlier_mask t col = Inr m \<and> m ! i))"
      using e i by (simp add: nrows_set_col)
    then show "(f ! i = Flag True) =
              (\<exists>c\<in>set cols. \<exists>col m. get_col (df self) c = Some col \<and>
                                       outlier_mask t col = Inr m \<and> m ! i)"
      using q i by simp
  qed
  show ?thesis
    by (rule exI[of _ d], rule exI[of _ "self\<lparr>df := d, outlier_flags := fl\<rparr>"], rule exI[of _ f])
       (use A b(1) L b(3) E in simp)
qed

lemma mask_last: "outlier_mask 1 [Num 0, Num 0, Num 0, Num 0, Num 5] = Inr [False, False, False, False, True]"
  by (simp add: outlier_mask_def has_text_def numbers_def zscore_def zscore_statistics_def
      mean_def numpy_std_def sq_dev_def)

lemma mask_first: "outlier_mask 1 [Num 5, Num 0, Num 0, Num 0, Num 0] = Inr [True, False, False, False, False]"
  by (simp add: outlier_mask_def has_text_def numbers_def zscore_def zscore_statistics_def
      mean_def numpy_std_def sq_dev_def)

lemma detect_two_columns:
  "fst (detect_outliers
          (init \<lparr>nrows = 5, columns = [(''x'', [Num 0, Num 0, Num 0, Num 0, Num 5]),
                                        (''y'', [Num 5, Num 0, Num 0, Num 0, Num 0])]\<rparr>)
          ([''x''] @ [''y'']) 1)
   = Inr \<lparr>nrows = 5, columns = [(''x'', [Num 0, Num 0, Num 0, Num 0, Num 5]),
                                 (''y'', [Num 5, Num 0, Num 0, Num 0, Num 0]),
                                 (''Outlier_Flag'', [Flag True, Flag False, Flag False, Flag False, Flag True])]\<rparr>"
  by (simp add: detect_outliers_def init_def get_col_def set_col_def mask_first mask_last
      loc_set_true_def Let_def eval_nat_numeral)

text \<open>
  C5. On a table whose columns all have the table's row count, with a column list that does
  not name the flag column itself and whose columns hold no strings, \<open>detect_outliers\<close>
  returns a table in which Outlier_Flag holds one boolean for every row, true exactly for
  the rows that the mask of at least one processed column marks. Flags only accumulate: a
  row flagged after the first columns of the list is still flagged after all of them.
\<close>

theorem outlier_flags_accumulate:
  assumes "wf_table (df self)" and "''Outlier_Flag'' \<notin> set (cs1 @ cs2)"
    and "\<forall>c\<in>set (cs1 @ cs2). \<forall>col. get_col (df self) c = Some col \<longrightarrow> \<not> has_text col"
  shows "\<exists>d self' f d1 self1 f1.
           detect_outliers self (cs1 @ cs2) t = (Inr d, self') \<and>
           get_col d ''Outlier_Flag'' = Some f \<and> length f = nrows (df self) \<and>
           (\<forall>x\<in>set f. \<exists>b. x = Flag b) \<and>
           (\<forall>i<nrows (df self). (f ! i = Flag True) =
              (\<exists>c\<in>set (cs1 @ cs2). \<exists>col m. get_col (df self) c = Some col \<and>
                                       outlier_mask t col = Inr m \<and> m ! i)) \<and>
           detect_outliers self cs1 t = (Inr d1, self1) \<and>
           get_col d1 ''Outlier_Flag'' = Some f1 \<and>
           (\<forall>i<nrows (df self). f1 ! i = Flag True \<longrightarrow> f ! i = Flag True)"
proof -
  from detect_outliers_flags[OF assms, of t] obtain d self' f where
    a: "detect_outliers self (cs1 @ cs2) t = (Inr d, self')"
    and b: "get_col d ''Outlier_Flag'' = Some f" "length f = nrows (df self)"
           "\<forall>x\<in>set f. \<exists>b. x = Flag b"
    and e: "\<forall>i<nrows (df self). (f ! i = Flag True) =
              (\<exists>c\<in>set (cs1 @ cs2). \<exists>col m. get_col (df self) c = Some col \<and>
                                       outlier_mask t col = Inr m \<and> m ! i)"
    by blast
  have n1: "''Outlier_Flag'' \<notin> set cs1" using assms(2) by simp
  have ok1: "\<forall>c\<in>set cs1. \<forall>col. get_col (df self) c = Some col \<longrightarrow> \<not> has_text col"
    using assms(3) by auto
  from detect_outliers_flags[OF assms(1) n1 ok1, of t] obtain d1 self1 f1 where
    a1: "detect_outliers self cs1 t = (Inr d1, self1)"
    and b1: "get_col d1 ''Outlier_Flag'' = Some f1"
    and e1: "\<forall>i<nrows (df self). (f1 ! i = Flag True) =
              (\<exists>c\<in>set cs1. \<exists>col m. get_col (df self) c = Some col \<and>
                                       outlier_mask t col = Inr m \<and> m ! i)"
    by blast
  have mono: "\<forall>i<nrows (df self). f1 ! i = Flag True \<longrightarrow> f ! i = Flag True"
  proof (intro allI impI)
    fix i assume i: "i < nrows (df self)" and t1: "f1 ! i = Flag True"
    then obtain c col m where "c \<in> set cs1" "get_col (df self) c = Some col"
      "outlier_mask t col = Inr m" "m ! i" using e1 by blast
    then have "\<exists>c\<in>set (cs1 @ cs2). \<exists>col m. get_col (df self) c = Some col \<and>
                                       outlier_mask t col = Inr m \<and> m ! i" by auto
    then show "f ! i = Flag True" using e i by blast
  qed
  show ?thesis using a b e a1 b1 mono by blast
qed

theorem outlier_flags_accumulate_witness:
  "\<exists>d self' f. detect_outliers
          (init \<lparr>nrows = 5, columns = [(''x'', [Num 0, Num 0, Num 0, Num 0, Num 5]),
                                        (''y'', [Num 5, Num 0, Num 0, Num 0, Num 0])]\<rparr>)
          ([''x''] @ [''y'']) 1 = (Inr d, self') \<and>
      get_col d ''Outlier_Flag'' = Some f \<and> length f = 5 \<and>
      f = [Flag True, Flag False, Flag False, Flag False, Flag True]"
proof -
  let ?T = "\<lparr>nrows = 5, columns = [(''x'', [Num 0, Num 0, Num 0, Num 0, Num 5]),
                                    (''y'', [Num 5, Num 0, Num 0, Num 0, Num 0])]\<rparr>"
  have h1: "wf_table (df (init ?T))" by (simp add: init_def wf_table_def)
  have h2: "''Outlier_Flag'' \<notin> set ([''x''] @ [''y''])" by simp
  have h3: "\<forall>c\<in>set ([''x''] @ [''y'']). \<forall>col. get_col (df (init ?T)) c = Some col \<longrightarrow> \<not> has_text col"
    by (simp add: init_def get_col_def has_text_def)
  from outlier_flags_accumulate[OF h1 h2 h3, of 1] obtain d self' f where
    a: "detect_outliers (init ?T) ([''x''] @ [''y'']) 1 = (Inr d, self')"
    and b: "get_col d ''Outlier_Flag'' = Some f" and c: "length f = nrows (df (init ?T))"
    by blast
  have "d = \<lparr>nrows = 5, columns = [(''x'', [Num 0, Num 0, Num 0, Num 0, Num 5]),
                                 (''y'', [Num 5, Num 0, Num 0, Num 0, Num 0]),
                                 (''Outlier_Flag'', [Flag True, Flag False, Flag False, Flag False, Flag True])]\<rparr>"
    using a detect_two_columns by simp
  then have "f = [Flag True, Flag False, Flag False, Flag False, Flag True]"
    using b by (simp add: get_col_def)
  moreover have "length f = 5" using c by (simp add: init_def)
  ultimately show ?thesis using a b by blast
qed

section \<open>Aggregation\<close>










lemma datetime_cells_ok:
  "datetime_cells q ts = Inr vs \<Longrightarrow>
     length vs = length ts \<and> (\<forall>j<length ts. datetime_cell q (ts ! j) = Inr (vs ! j))"
proof (induction ts arbitrary: vs)
  case Nil then show ?case by simp
next
  case (Cons c cs)
  from Cons.prems obtain v vs' where
    a: "datetime_cell q c = Inr v" and b: "datetime_cells q cs = Inr vs'" and c: "vs = v # vs'"
    by (auto split: sum.splits)
  from Cons.IH[OF b] have
    l: "length vs' = length cs" and n: "\<forall>j<length cs. datetime_cell q (cs ! j) = Inr (vs' ! j)"
    by auto
  show ?case
  proof (intro conjI allI impI)
    show "length vs = length (c # cs)" using l c by simp
  next
    fix j assume j: "j < length (c # cs)"
    show "datetime_cell q ((c # cs) ! j) = Inr (vs ! j)"
    proof (cases j)
      case 0 then show ?thesis using a c by simp
    next
      case (Suc j') then show ?thesis using n j c by simp
    qed
  qed
qed

lemma tag_table_nrows: "tag_table parse c d0 = Inr t \<Longrightarrow> nrows t = nrows d0"
  by (auto simp: tag_table_def Let_def nrows_set_col split: option.splits sum.splits)

lemma tag_table_country:
  "tag_table parse c d0 = Inr t \<Longrightarrow> get_col t ''Country'' = Some (replicate (nrows d0) (Text c))"
  by (auto simp: tag_table_def Let_def get_col_set_col split: option.splits sum.splits)

lemma tag_table_other:
  "tag_table parse c d0 = Inr t \<Longrightarrow> x \<noteq> ''Country'' \<Longrightarrow> x \<noteq> ''Timestamp'' \<Longrightarrow>
     get_col t x = get_col d0 x"
  by (auto simp: tag_table_def Let_def get_col_set_col split: option.splits sum.splits)

lemma tag_table_no_timestamp:
  "tag_table parse c d0 = Inr t \<Longrightarrow> get_col d0 ''Timestamp'' = None \<Longrightarrow>
     get_col t ''Timestamp'' = None"
  by (auto simp: tag_table_def Let_def get_col_set_col split: option.splits sum.splits)

lemma tag_table_timestamp:
  "tag_table parse c d0 = Inr t \<Longrightarrow> get_col d0 ''Timestamp'' = Some ts \<Longrightarrow>
     \<exists>ts'. datetime_cells (parse ts) ts = Inr ts' \<and> get_col t ''Timestamp'' = Some ts'"
  by (auto simp: tag_table_def Let_def get_col_set_col to_datetime_def split: option.splits sum.splits)

lemma tag_table_wf:
  assumes "tag_table parse c d0 = Inr t" and "wf_table d0"
  shows "wf_table t"
proof -
  let ?d1 = "set_col d0 ''Country'' (replicate (nrows d0) (Text c))"
  have w1: "wf_table ?d1" using assms(2) by (simp add: wf_set_col)
  show ?thesis
  proof (cases "get_col ?d1 ''Timestamp''")
    case None
    then show ?thesis using assms(1) w1 by (simp add: tag_table_def Let_def)
  next
    case (Some ts)
    then obtain ts' where c: "datetime_cells (parse ts) ts = Inr ts'" and t: "t = set_col ?d1 ''Timestamp'' ts'"
      using assms(1) by (auto simp: tag_table_def Let_def to_datetime_def split: sum.splits)
    have "length ts = nrows ?d1" using wf_col_length[OF w1 Some] .
    then have "length ts' = nrows ?d1" using datetime_cells_ok[OF c] by simp
    then show ?thesis using t w1 by (simp add: wf_set_col)
  qed
qed

lemma loads_table:
  assumes "loads parse fs (c, p)"
  shows "\<exists>d0 t. fs p = Some (Table d0) \<and> table_at fs p = d0 \<and> tag_table parse c d0 = Inr t"
  using assms by (auto simp: loads_def table_at_def split: option.splits csv_file.splits sum.splits)

lemma load_all_loads:
  assumes "list_all (loads parse fs) m"
  shows "\<exists>ds s'. load_all parse fs m (s, acc) = (Inr (acc @ ds), s') \<and>
           combined_data s' = combined_data s \<and>
           list_all2 (\<lambda>e t. tag_table parse (fst e) (table_at fs (snd e)) = Inr t) m ds"
  using assms
proof (induction m arbitrary: s acc)
  case Nil then show ?case by simp
next
  case (Cons x xs)
  obtain c p where x: "x = (c, p)" by (cases x)
  from Cons.prems x have "loads parse fs (c, p)" by simp
  from loads_table[OF this] obtain d0 t where
    f: "fs p = Some (Table d0)" and ta: "table_at fs p = d0" and tg: "tag_table parse c d0 = Inr t"
    by blast
  let ?s1 = "s\<lparr>countries_data := AList.update c t (countries_data s)\<rparr>"
  have l: "load_country_data parse fs s c p = (Inr t, ?s1)"
    using f tg by (simp add: load_country_data_def)
  have rest: "list_all (loads parse fs) xs" using Cons.prems by simp
  from Cons.IH[OF rest, of ?s1 "acc @ [t]"] obtain ds s' where
    a: "load_all parse fs xs (?s1, acc @ [t]) = (Inr ((acc @ [t]) @ ds), s')"
    and b: "combined_data s' = combined_data ?s1"
    and c: "list_all2 (\<lambda>e t. tag_table parse (fst e) (table_at fs (snd e)) = Inr t) xs ds"
    by blast
  have "load_all parse fs (x # xs) (s, acc) = (Inr (acc @ (t # ds)), s')" using x l a by simp
  moreover have "combined_data s' = combined_data s" using b by simp
  moreover have "list_all2 (\<lambda>e t. tag_table parse (fst e) (table_at fs (snd e)) = Inr t) (x # xs) (t # ds)"
    using c x ta tg by simp
  ultimately show ?case by blast
qed

lemma set_unique: "set (unique xs) = set xs"
  by (simp add: unique_def)

lemma map_of_tabulate:
  "map_of (map (\<lambda>c. (c, f c)) ks) k = (if k \<in> set ks then Some (f k) else None)"
  by (induction ks) auto

lemma in_keys_iff: "c \<in> set (map fst (columns d)) \<longleftrightarrow> get_col d c \<noteq> None"
  by (simp add: get_col_def map_of_eq_None_iff)

lemma piece_lengths:
  assumes "list_all wf_table ds"
  shows "map length (map (\<lambda>t. case get_col t x of Some xs \<Rightarrow> xs
                                | None \<Rightarrow> replicate (nrows t) Null) ds) = map nrows ds"
  using assms
proof (induction ds)
  case Nil then show ?case by simp
next
  case (Cons t ds)
  then have "wf_table t" by simp
  then have "length (case get_col t x of Some xs \<Rightarrow> xs | None \<Rightarrow> replicate (nrows t) Null) = nrows t"
    using wf_col_length[of t x] by (auto split: option.splits)
  then show ?case using Cons by simp
qed

lemma concat_frames_columns:
  assumes "ds \<noteq> []"
  shows "\<exists>d. concat_frames ds = Inr d \<and> nrows d = sum_list (map nrows ds) \<and>
           (\<forall>x. get_col d x =
                  (if \<exists>t\<in>set ds. get_col t x \<noteq> None
                   then Some (concat (map (\<lambda>t. case get_col t x of Some xs \<Rightarrow> xs
                                                 | None \<Rightarrow> replicate (nrows t) Null) ds))
                   else None)) \<and>
           (list_all wf_table ds \<longrightarrow> wf_table d)"
proof -
  let ?names = "unique (concat (map (\<lambda>d. map fst (columns d)) ds))"
  let ?piece = "\<lambda>x t. case get_col t x of Some xs \<Rightarrow> xs | None \<Rightarrow> replicate (nrows t) Null"
  let ?f = "\<lambda>x. concat (map (?piece x) ds)"
  let ?d = "\<lparr>nrows = sum_list (map nrows ds), columns = map (\<lambda>c. (c, ?f c)) ?names\<rparr>"
  have c: "concat_frames ds = Inr ?d" using assms by (simp add: concat_frames_def)
  have names: "\<And>x. x \<in> set ?names \<longleftrightarrow> (\<exists>t\<in>set ds. get_col t x \<noteq> None)"
    using in_keys_iff by (auto simp: set_unique)
  have g: "\<forall>x. get_col ?d x = (if \<exists>t\<in>set ds. get_col t x \<noteq> None then Some (?f x) else None)"
    using names by (simp add: get_col_def map_of_tabulate)
  have w: "list_all wf_table ds \<longrightarrow> wf_table ?d"
  proof
    assume wf: "list_all wf_table ds"
    have len: "\<And>x. length (?f x) = sum_list (map nrows ds)"
    proof -
      fix x
      have "length (?f x) = sum_list (map length (map (?piece x) ds))"
        by (simp only: length_concat)
      also have "\<dots> = sum_list (map nrows ds)" by (simp only: piece_lengths[OF wf])
      finally show "length (?f x) = sum_list (map nrows ds)" .
    qed
    show "wf_table ?d" using len by (simp add: wf_table_def list_all_iff)
  qed
  show ?thesis using c g w by (intro exI[of _ ?d]) simp
qed

lemma nth_concat_offset:
  "k < length xss \<Longrightarrow> j < length (xss ! k) \<Longrightarrow>
     sum_list (map length (take k xss)) + j < length (concat xss) \<and>
     concat xss ! (sum_list (map length (take k xss)) + j) = xss ! k ! j"
proof (induction xss arbitrary: k)
  case Nil then show ?case by simp
next
  case (Cons xs xss)
  show ?case
  proof (cases k)
    case 0
    then show ?thesis using Cons.prems by (simp add: nth_append)
  next
    case (Suc k')
    then have "k' < length xss" "j < length (xss ! k')" using Cons.prems by auto
    from Cons.IH[OF this] show ?thesis using Suc by (simp add: nth_append)
  qed
qed

lemma split_index:
  "i < sum_list ns \<Longrightarrow> \<exists>k j. k < length ns \<and> j < ns ! k \<and> i = sum_list (take k ns) + (j::nat)"
proof (induction ns arbitrary: i)
  case Nil then show ?case by simp
next
  case (Cons n ns)
  show ?case
  proof (cases "i < n")
    case True
    then have "0 < length (n # ns) \<and> i < (n # ns) ! 0 \<and> i = sum_list (take 0 (n # ns)) + i" by simp
    then show ?thesis by blast
  next
    case False
    then have "i - n < sum_list ns" using Cons.prems by simp
    from Cons.IH[OF this] obtain k j where
      "k < length ns" "j < ns ! k" "i - n = sum_list (take k ns) + j" by blast
    then have "Suc k < length (n # ns) \<and> j < (n # ns) ! Suc k \<and> i = sum_list (take (Suc k) (n # ns)) + j"
      using False by simp
    then show ?thesis by blast
  qed
qed

lemma concat_frames_cell:
  assumes "concat_frames ds = Inr d" and "list_all wf_table ds"
    and "k < length ds" and "j < nrows (ds ! k)" and "get_col d x \<noteq> None"
  shows "cell_at d x (sum_list (map nrows (take k ds)) + j)
           = Some (case get_col (ds ! k) x of Some xs \<Rightarrow> xs ! j | None \<Rightarrow> Null)"
proof -
  let ?piece = "\<lambda>t. case get_col t x of Some xs \<Rightarrow> xs | None \<Rightarrow> replicate (nrows t) Null"
  have ne: "ds \<noteq> []" using assms(3) by auto
  from concat_frames_columns[OF ne] assms(1) have
    g: "get_col d x = (if \<exists>t\<in>set ds. get_col t x \<noteq> None then Some (concat (map ?piece ds)) else None)"
    by auto
  then have col: "get_col d x = Some (concat (map ?piece ds))" using assms(5) by (auto split: if_splits)
  have lens: "map length (map ?piece ds) = map nrows ds" by (rule piece_lengths[OF assms(2)])
  have wk: "wf_table (ds ! k)" using assms(2,3) by (simp add: list_all_length)
  have lk: "length (?piece (ds ! k)) = nrows (ds ! k)"
    using wf_col_length[OF wk, of x] by (auto split: option.splits)
  have k': "k < length (map ?piece ds)" using assms(3) by simp
  have j': "j < length (map ?piece ds ! k)" using assms(3,4) lk by simp
  have off: "sum_list (map length (take k (map ?piece ds))) = sum_list (map nrows (take k ds))"
  proof -
    have "map length (take k (map ?piece ds)) = take k (map length (map ?piece ds))"
      by (simp only: take_map)
    also have "\<dots> = take k (map nrows ds)" by (simp only: lens)
    also have "\<dots> = map nrows (take k ds)" by (simp only: take_map)
    finally show ?thesis by simp
  qed
  from nth_concat_offset[OF k' j'] off have
    a: "sum_list (map nrows (take k ds)) + j < length (concat (map ?piece ds))"
    and b: "concat (map ?piece ds) ! (sum_list (map nrows (take k ds)) + j) = ?piece (ds ! k) ! j"
    using assms(3) by auto
  have "?piece (ds ! k) ! j = (case get_col (ds ! k) x of Some xs \<Rightarrow> xs ! j | None \<Rightarrow> Null)"
    using assms(4) by (auto split: option.splits)
  then show ?thesis using col a b by (simp add: cell_at_def)
qed

lemma concat_frames_has_column:
  assumes "concat_frames ds = Inr d" and "t \<in> set ds" and "get_col t x \<noteq> None"
  shows "get_col d x \<noteq> None"
proof -
  have ne: "ds \<noteq> []" using assms(2) by auto
  from concat_frames_columns[OF ne] assms(1) have
    "get_col d x = (if \<exists>t\<in>set ds. get_col t x \<noteq> None
       then Some (concat (map (\<lambda>t. case get_col t x of Some xs \<Rightarrow> xs
                                     | None \<Rightarrow> replicate (nrows t) Null) ds)) else None)"
    by auto
  then show ?thesis using assms(2,3) by auto
qed

lemma rows_before_nrows:
  assumes "list_all2 (\<lambda>e t. tag_table parse (fst e) (table_at fs (snd e)) = Inr t) m ds"
  shows "map nrows ds = map (\<lambda>(c, p). nrows (table_at fs p)) m"
  using assms
proof (induction rule: list_all2_induct)
  case Nil then show ?case by simp
next
  case (Cons e es t ts)
  then show ?case using tag_table_nrows[of parse "fst e" "table_at fs (snd e)" t]
    by (simp add: case_prod_beta)
qed

text \<open>
  C8 (as the code has it). For a mapping that is not empty and whose entries all load
  (every file exists, is read, and its timestamps parse; a table read from a file has all
  its columns of the length of its row count), \<open>aggregate_all_countries\<close> returns a table
  and stores it as the combined table. Its row count is the sum of the row counts of the
  files, and its rows are the rows of the files, file after file in the order of the
  mapping: every row of the result is row \<open>j\<close> of some entry \<open>k\<close>, and that row carries the
  site name of entry \<open>k\<close> as its one Country cell, the cells of row \<open>j\<close> of the file in
  every column of the file, the timestamp parsed, and a missing value in every column
  that only other files have.
\<close>

theorem aggregate_rows_from_files:
  assumes "file_mapping \<noteq> []"
    and "list_all (loads parse fs) file_mapping"
    and "list_all (\<lambda>(c, p). wf_table (table_at fs p)) file_mapping"
  shows "\<exists>d. fst (aggregate_all_countries parse fs self file_mapping) = Inr d \<and>
           combined_data (snd (aggregate_all_countries parse fs self file_mapping)) = Some d \<and>
           wf_table d \<and>
           nrows d = sum_list (map (\<lambda>(c, p). nrows (table_at fs p)) file_mapping) \<and>
           (\<forall>i<nrows d. \<exists>k j. k < length file_mapping \<and>
                              j < nrows (table_at fs (snd (file_mapping ! k))) \<and>
                              i = rows_before fs file_mapping k + j) \<and>
           (\<forall>k j. k < length file_mapping \<longrightarrow> j < nrows (table_at fs (snd (file_mapping ! k))) \<longrightarrow>
              cell_at d ''Country'' (rows_before fs file_mapping k + j)
                = Some (Text (fst (file_mapping ! k))) \<and>
              (\<forall>x xs. x \<noteq> ''Country'' \<longrightarrow> x \<noteq> ''Timestamp'' \<longrightarrow>
                  get_col (table_at fs (snd (file_mapping ! k))) x = Some xs \<longrightarrow>
                  cell_at d x (rows_before fs file_mapping k + j) = Some (xs ! j)) \<and>
              (\<forall>ts. get_col (table_at fs (snd (file_mapping ! k))) ''Timestamp'' = Some ts \<longrightarrow>
                  (\<exists>v. datetime_cell (parse ts) (ts ! j) = Inr v \<and>
                       cell_at d ''Timestamp'' (rows_before fs file_mapping k + j) = Some v)) \<and>
              (\<forall>x. x \<noteq> ''Country'' \<longrightarrow>
                  get_col (table_at fs (snd (file_mapping ! k))) x = None \<longrightarrow>
                  get_col d x \<noteq> None \<longrightarrow>
                  cell_at d x (rows_before fs file_mapping k + j) = Some Null))"
proof -
  let ?m = file_mapping
  let ?file = "\<lambda>k. table_at fs (snd (?m ! k))"
  from load_all_loads[where parse=parse and fs=fs and m="?m" and s=self and acc="[]", OF assms(2)]
  obtain ds s1 where l: "load_all parse fs ?m (self, []) = (Inr ds, s1)"
    and tagged: "list_all2 (\<lambda>e t. tag_table parse (fst e) (table_at fs (snd e)) = Inr t) ?m ds"
    by auto
  have len: "length ds = length ?m" using tagged by (simp add: list_all2_lengthD)
  have ne: "ds \<noteq> []" using len assms(1) by auto
  have tag: "\<And>k. k < length ?m \<Longrightarrow> tag_table parse (fst (?m ! k)) (?file k) = Inr (ds ! k)"
  proof -
    fix k assume k: "k < length ?m"
    from list_all2_nthD[OF tagged k]
    show "tag_table parse (fst (?m ! k)) (?file k) = Inr (ds ! k)" by simp
  qed
  have wf0: "\<And>k. k < length ?m \<Longrightarrow> wf_table (?file k)"
  proof -
    fix k assume "k < length ?m"
    then have "(\<lambda>(c, p). wf_table (table_at fs p)) (?m ! k)"
      using assms(3) by (simp add: list_all_length)
    then show "wf_table (?file k)" by (simp add: case_prod_beta)
  qed
  have wfs: "list_all wf_table ds"
    unfolding list_all_length
  proof (intro allI impI)
    fix k assume "k < length ds"
    then have k: "k < length ?m" using len by simp
    show "wf_table (ds ! k)" using tag_table_wf[OF tag[OF k] wf0[OF k]] .
  qed
  have nr: "map nrows ds = map (\<lambda>(c, p). nrows (table_at fs p)) ?m"
    by (rule rows_before_nrows[OF tagged])
  have nrk: "\<And>k. k < length ?m \<Longrightarrow> nrows (ds ! k) = nrows (?file k)"
    using tag tag_table_nrows by blast
  have before: "\<And>k. sum_list (map nrows (take k ds)) = rows_before fs ?m k"
  proof -
    fix k
    have "map nrows (take k ds) = take k (map nrows ds)" by (simp only: take_map)
    also have "\<dots> = take k (map (\<lambda>(c, p). nrows (table_at fs p)) ?m)" by (simp only: nr)
    also have "\<dots> = map (\<lambda>(c, p). nrows (table_at fs p)) (take k ?m)" by (simp only: take_map)
    finally show "sum_list (map nrows (take k ds)) = rows_before fs ?m k"
      by (simp add: rows_before_def)
  qed
  from concat_frames_columns[OF ne] obtain d where
    c: "concat_frames ds = Inr d" and nd: "nrows d = sum_list (map nrows ds)"
    and wd: "list_all wf_table ds \<longrightarrow> wf_table d"
    by blast
  have agg: "aggregate_all_countries parse fs self ?m = (Inr d, s1\<lparr>combined_data := Some d\<rparr>)"
    using l c by (simp add: aggregate_all_countries_def)
  have cell: "\<And>k j x. k < length ?m \<Longrightarrow> j < nrows (?file k) \<Longrightarrow> get_col d x \<noteq> None \<Longrightarrow>
      cell_at d x (rows_before fs ?m k + j)
        = Some (case get_col (ds ! k) x of Some xs \<Rightarrow> xs ! j | None \<Rightarrow> Null)"
  proof -
    fix k j x assume k: "k < length ?m" and j: "j < nrows (?file k)" and x: "get_col d x \<noteq> None"
    have k': "k < length ds" using k len by simp
    have j': "j < nrows (ds ! k)" using j nrk[OF k] by simp
    show "cell_at d x (rows_before fs ?m k + j)
        = Some (case get_col (ds ! k) x of Some xs \<Rightarrow> xs ! j | None \<Rightarrow> Null)"
      using concat_frames_cell[OF c wfs k' j' x] before[of k] by simp
  qed
  have has: "\<And>k x. k < length ?m \<Longrightarrow> get_col (ds ! k) x \<noteq> None \<Longrightarrow> get_col d x \<noteq> None"
  proof -
    fix k x assume k: "k < length ?m" and g: "get_col (ds ! k) x \<noteq> None"
    have "ds ! k \<in> set ds" using k len by simp
    then show "get_col d x \<noteq> None" using concat_frames_has_column[OF c _ g] by blast
  qed
  have rows: "\<forall>i<nrows d. \<exists>k j. k < length ?m \<and> j < nrows (?file k) \<and> i = rows_before fs ?m k + j"
  proof (intro allI impI)
    fix i assume "i < nrows d"
    then have "i < sum_list (map nrows ds)" using nd by simp
    from split_index[OF this] obtain k j where
      k: "k < length (map nrows ds)" and j: "j < map nrows ds ! k"
      and i: "i = sum_list (take k (map nrows ds)) + j" by blast
    have k': "k < length ?m" using k len by simp
    have "j < nrows (?file k)" using j k nrk[OF k'] by simp
    moreover have "i = rows_before fs ?m k + j" using i before[of k] by (simp add: take_map)
    ultimately show "\<exists>k j. k < length ?m \<and> j < nrows (?file k) \<and> i = rows_before fs ?m k + j"
      using k' by blast
  qed
  have prov: "\<forall>k j. k < length ?m \<longrightarrow> j < nrows (?file k) \<longrightarrow>
              cell_at d ''Country'' (rows_before fs ?m k + j) = Some (Text (fst (?m ! k))) \<and>
              (\<forall>x xs. x \<noteq> ''Country'' \<longrightarrow> x \<noteq> ''Timestamp'' \<longrightarrow>
                  get_col (?file k) x = Some xs \<longrightarrow>
                  cell_at d x (rows_before fs ?m k + j) = Some (xs ! j)) \<and>
              (\<forall>ts. get_col (?file k) ''Timestamp'' = Some ts \<longrightarrow>
                  (\<exists>v. datetime_cell (parse ts) (ts ! j) = Inr v \<and>
                       cell_at d ''Timestamp'' (rows_before fs ?m k + j) = Some v)) \<and>
              (\<forall>x. x \<noteq> ''Country'' \<longrightarrow> get_col (?file k) x = None \<longrightarrow> get_col d x \<noteq> None \<longrightarrow>
                  cell_at d x (rows_before fs ?m k + j) = Some Null)"
  proof (intro allI impI conjI)
    fix k j assume k: "k < length ?m" and j: "j < nrows (?file k)"
    have t: "tag_table parse (fst (?m ! k)) (?file k) = Inr (ds ! k)" by (rule tag[OF k])
    have gc: "get_col (ds ! k) ''Country'' = Some (replicate (nrows (?file k)) (Text (fst (?m ! k))))"
      by (rule tag_table_country[OF t])
    then have "get_col d ''Country'' \<noteq> None" using has[OF k, of "''Country''"] by simp
    from cell[OF k j this] show
      "cell_at d ''Country'' (rows_before fs ?m k + j) = Some (Text (fst (?m ! k)))"
      using gc j by simp
  next
    fix k j x xs assume k: "k < length ?m" and j: "j < nrows (?file k)"
      and x: "x \<noteq> ''Country''" "x \<noteq> ''Timestamp''" and g: "get_col (?file k) x = Some xs"
    have t: "tag_table parse (fst (?m ! k)) (?file k) = Inr (ds ! k)" by (rule tag[OF k])
    have gx: "get_col (ds ! k) x = Some xs" using tag_table_other[OF t x] g by simp
    then have "get_col d x \<noteq> None" using has[OF k, of x] by simp
    from cell[OF k j this] show "cell_at d x (rows_before fs ?m k + j) = Some (xs ! j)"
      using gx by simp
  next
    fix k j ts assume k: "k < length ?m" and j: "j < nrows (?file k)"
      and g: "get_col (?file k) ''Timestamp'' = Some ts"
    have t: "tag_table parse (fst (?m ! k)) (?file k) = Inr (ds ! k)" by (rule tag[OF k])
    from tag_table_timestamp[OF t g] obtain ts' where
      p: "datetime_cells (parse ts) ts = Inr ts'" and gt: "get_col (ds ! k) ''Timestamp'' = Some ts'"
      by blast
    have "length ts = nrows (?file k)" using wf_col_length[OF wf0[OF k] g] .
    then have v: "datetime_cell (parse ts) (ts ! j) = Inr (ts' ! j)"
      using datetime_cells_ok[OF p] j by simp
    have "get_col d ''Timestamp'' \<noteq> None" using has[OF k, of "''Timestamp''"] gt by simp
    from cell[OF k j this] have "cell_at d ''Timestamp'' (rows_before fs ?m k + j) = Some (ts' ! j)"
      using gt by simp
    then show "\<exists>v. datetime_cell (parse ts) (ts ! j) = Inr v \<and>
                   cell_at d ''Timestamp'' (rows_before fs ?m k + j) = Some v"
      using v by blast
  next
    fix k j x assume k: "k < length ?m" and j: "j < nrows (?file k)"
      and x: "x \<noteq> ''Country''" and g: "get_col (?file k) x = None" and dx: "get_col d x \<noteq> None"
    have t: "tag_table parse (fst (?m ! k)) (?file k) = Inr (ds ! k)" by (rule tag[OF k])
    have gx: "get_col (ds ! k) x = None"
    proof (cases "x = ''Timestamp''")
      case True
      then show ?thesis using tag_table_no_timestamp[OF t] g by simp
    next
      case False
      then show ?thesis using tag_table_other[OF t x False] g by simp
    qed
    from cell[OF k j dx] show "cell_at d x (rows_before fs ?m k + j) = Some Null"
      using gx by simp
  qed
  have a1: "fst (aggregate_all_countries parse fs self ?m) = Inr d" using agg by simp
  have a2: "combined_data (snd (aggregate_all_countries parse fs self ?m)) = Some d" using agg by simp
  have a3: "wf_table d" using wd wfs by simp
  have a4: "nrows d = sum_list (map (\<lambda>(c, p). nrows (table_at fs p)) ?m)" using nd nr by simp
  show ?thesis
    by (rule exI[of _ d]) (intro conjI a1 a2 a3 a4 rows prov)
qed

theorem aggregate_rows_from_files_witness:
  "\<exists>d. fst (aggregate_all_countries
              (\<lambda>ts s. if s = ''t1'' then Some 10 else if s = ''t2'' then Some 20 else None)
              (\<lambda>p. if p = ''a.csv'' then Some (Table \<lparr>nrows = 1, columns = [(''GHI'', [Num 1])]\<rparr>)
                   else if p = ''b.csv''
                   then Some (Table \<lparr>nrows = 2, columns = [(''Timestamp'', [Text ''t1'', Text ''t2'']),
                                                            (''GHI'', [Num 2, Num 3])]\<rparr>)
                   else None)
              synthesizer_init [(''A'', ''a.csv''), (''B'', ''b.csv'')]) = Inr d \<and>
       nrows d = 3 \<and>
       cell_at d ''Country'' 0 = Some (Text ''A'') \<and>
       cell_at d ''Country'' 2 = Some (Text ''B'') \<and>
       cell_at d ''GHI'' 2 = Some (Num 3) \<and>
       cell_at d ''Timestamp'' 2 = Some (Num 20) \<and>
       cell_at d ''Timestamp'' 0 = Some Null"
proof -
  let ?parse = "\<lambda>(ts::series) s. if s = ''t1'' then Some (10::real) else if s = ''t2'' then Some 20 else None"
  let ?a = "\<lparr>nrows = 1, columns = [(''GHI'', [Num 1])]\<rparr>"
  let ?b = "\<lparr>nrows = 2, columns = [(''Timestamp'', [Text ''t1'', Text ''t2'']), (''GHI'', [Num 2, Num 3])]\<rparr>"
  let ?fs = "\<lambda>p. if p = ''a.csv'' then Some (Table ?a) else if p = ''b.csv'' then Some (Table ?b) else None"
  let ?m = "[(''A'', ''a.csv''), (''B'', ''b.csv'')]"
  have h1: "?m \<noteq> []" by simp
  have h2: "list_all (loads ?parse ?fs) ?m"
    by (simp add: loads_def tag_table_def Let_def get_col_def set_col_def to_datetime_def)
  have h3: "list_all (\<lambda>(c, p). wf_table (table_at ?fs p)) ?m"
    by (simp add: table_at_def wf_table_def)
  have ta: "table_at ?fs ''a.csv'' = ?a" and tb: "table_at ?fs ''b.csv'' = ?b"
    by (simp_all add: table_at_def)
  have r0: "rows_before ?fs ?m 0 = 0" and r1: "rows_before ?fs ?m 1 = 1"
    by (simp_all add: rows_before_def table_at_def)
  from aggregate_rows_from_files[where parse="?parse" and fs="?fs" and file_mapping="?m"
      and self=synthesizer_init, OF h1 h2 h3]
  obtain d where
    r: "fst (aggregate_all_countries ?parse ?fs synthesizer_init ?m) = Inr d"
    and n: "nrows d = sum_list (map (\<lambda>(c, p). nrows (table_at ?fs p)) ?m)"
    and p: "\<forall>k j. k < length ?m \<longrightarrow> j < nrows (table_at ?fs (snd (?m ! k))) \<longrightarrow>
              cell_at d ''Country'' (rows_before ?fs ?m k + j) = Some (Text (fst (?m ! k))) \<and>
              (\<forall>x xs. x \<noteq> ''Country'' \<longrightarrow> x \<noteq> ''Timestamp'' \<longrightarrow>
                  get_col (table_at ?fs (snd (?m ! k))) x = Some xs \<longrightarrow>
                  cell_at d x (rows_before ?fs ?m k + j) = Some (xs ! j)) \<and>
              (\<forall>ts. get_col (table_at ?fs (snd (?m ! k))) ''Timestamp'' = Some ts \<longrightarrow>
                  (\<exists>v. datetime_cell (?parse ts) (ts ! j) = Inr v \<and>
                       cell_at d ''Timestamp'' (rows_before ?fs ?m k + j) = Some v)) \<and>
              (\<forall>x. x \<noteq> ''Country'' \<longrightarrow>
                  get_col (table_at ?fs (snd (?m ! k))) x = None \<longrightarrow>
                  get_col d x \<noteq> None \<longrightarrow>
                  cell_at d x (rows_before ?fs ?m k + j) = Some Null)"
    by blast
  have k0: "(0::nat) < length ?m" and k1: "(1::nat) < length ?m" by simp_all
  have j0: "0 < nrows (table_at ?fs (snd (?m ! 0)))" by (simp add: ta)
  have j1: "1 < nrows (table_at ?fs (snd (?m ! 1)))" by (simp add: tb)
  from p[rule_format, OF k0 j0] have
    c0: "cell_at d ''Country'' 0 = Some (Text ''A'')"
    and null0: "get_col d ''Timestamp'' \<noteq> None \<longrightarrow> cell_at d ''Timestamp'' 0 = Some Null"
    using r0 by (simp_all add: ta get_col_def)
  from p[rule_format, OF k1 j1] have
    c2: "cell_at d ''Country'' 2 = Some (Text ''B'')"
    and g2: "cell_at d ''GHI'' 2 = Some (Num 3)"
    and t2: "cell_at d ''Timestamp'' 2 = Some (Num 20)"
    using r1 by (simp_all add: tb get_col_def numeral_2_eq_2)
  have "get_col d ''Timestamp'' \<noteq> None" using t2 by (auto simp: cell_at_def split: option.splits)
  then have t0: "cell_at d ''Timestamp'' 0 = Some Null" using null0 by simp
  have n3: "nrows d = 3" using n by (simp add: ta tb)
  show ?thesis
    by (rule exI[of _ d]) (intro conjI r n3 c0 c2 g2 t2 t0)
qed

text \<open>
  C8 (as stated) fails where no table is returned: at the empty mapping, where
  \<^verbatim>\<open>pd.concat\<close> of no frames raises ValueError, at a file that exists and whose
  timestamps do not parse, and at a file that exists and cannot be read.
\<close>

theorem aggregate_no_table_counterexample:
  "fst (aggregate_all_countries (\<lambda>ts s. None) (\<lambda>p. None) synthesizer_init []) = Inl ValueError \<and>
   fst (aggregate_all_countries (\<lambda>ts s. None)
          (\<lambda>p. if p = ''a.csv''
               then Some (Table \<lparr>nrows = 1, columns = [(''Timestamp'', [Text ''soon'']),
                                                        (''GHI'', [Num 1])]\<rparr>)
               else None)
          synthesizer_init [(''A'', ''a.csv'')]) = Inl ValueError \<and>
   fst (aggregate_all_countries (\<lambda>ts s. None)
          (\<lambda>p. if p = ''a.csv'' then Some Unreadable else None)
          synthesizer_init [(''A'', ''a.csv'')]) = Inl ParserError"
  by (simp add: aggregate_all_countries_def concat_frames_def load_country_data_def tag_table_def
      Let_def get_col_def set_col_def to_datetime_def)

end
